theory Spec2Isabelle
  imports Main
begin

section \<open>Python values and exceptions\<close>

text \<open>
  A Python \<open>str\<close> is modelled as a \<^typ>\<open>string\<close>; a character stands for the code point of
  the same number, so the model covers the code points below 256. Paths are strings.
\<close>

type_synonym path = string

text \<open>
  The exceptions the program can meet. \<open>FileNotFoundError\<close>, \<open>PermissionError\<close>,
  \<open>NotADirectoryError\<close> and \<open>IsADirectoryError\<close> are subclasses of \<open>OSError\<close> (of which
  \<open>IOError\<close> is an alias); \<open>OtherOSError\<close> stands for every other \<open>OSError\<close>.
  \<open>UnicodeDecodeError\<close> (raised by a text-mode \<open>read\<close>), \<open>UnicodeEncodeError\<close> (raised by
  \<open>print\<close> on a line the encoding of the standard output cannot carry),
  \<open>CalledProcessError\<close> and \<open>SystemExit\<close> are not.
\<close>

datatype exn =
    FileNotFoundError
  | PermissionError
  | NotADirectoryError
  | IsADirectoryError
  | OtherOSError
  | UnicodeDecodeError
  | UnicodeEncodeError
  | CalledProcessError int
  | SystemExit int

fun is_OSError :: "exn \<Rightarrow> bool" where
  "is_OSError FileNotFoundError = True"
| "is_OSError PermissionError = True"
| "is_OSError NotADirectoryError = True"
| "is_OSError IsADirectoryError = True"
| "is_OSError OtherOSError = True"
| "is_OSError UnicodeDecodeError = False"
| "is_OSError UnicodeEncodeError = False"
| "is_OSError (CalledProcessError rc) = False"
| "is_OSError (SystemExit rc) = False"

text \<open>The part of \<open>os.stat_result\<close> the program could look at (it looks at none).\<close>

record stat_result =
  st_mode :: nat
  st_size :: nat

text \<open>
  \<open>bool(os.lstat(p))\<close>: a \<open>stat_result\<close> is a struct sequence with a fixed, non-zero number
  of fields, so its truth value is \<open>True\<close> whatever the fields hold.
\<close>

fun py_bool_stat :: "stat_result \<Rightarrow> bool" where
  "py_bool_stat st = True"

subsection \<open>\<open>os.path.join\<close>\<close>

text \<open>
  \<open>posixpath.join(a, *p)\<close>: a component that starts with \<open>/\<close> replaces what was joined so
  far; otherwise it is appended, after a \<open>/\<close> unless the path so far is empty or already
  ends with one.
\<close>

fun join_step :: "path \<Rightarrow> path \<Rightarrow> path" where
  "join_step p b =
     (if b \<noteq> [] \<and> hd b = CHR ''/'' then b
      else if p = [] \<or> last p = CHR ''/'' then p @ b
      else p @ ''/'' @ b)"

definition os_path_join :: "path \<Rightarrow> path list \<Rightarrow> path" where
  "os_path_join a ps = foldl join_step a ps"

subsection \<open>\<open>str.strip\<close>, \<open>str.format\<close> pieces and \<open>repr\<close>\<close>

text \<open>The code points below 256 for which \<open>str.isspace\<close> holds.\<close>

definition py_isspace :: "char \<Rightarrow> bool" where
  "py_isspace c =
     (let n = (of_char c :: nat)
      in (9 \<le> n \<and> n \<le> 13) \<or> (28 \<le> n \<and> n \<le> 32) \<or> n = 133 \<or> n = 160)"

definition py_strip :: "string \<Rightarrow> string" where
  "py_strip s = rev (dropWhile py_isspace (rev (dropWhile py_isspace s)))"

text \<open>\<open>'{:<w}'.format(s)\<close>: pad with spaces on the right up to width \<open>w\<close>.\<close>

definition py_ljust :: "nat \<Rightarrow> string \<Rightarrow> string" where
  "py_ljust w s = s @ replicate (w - length s) CHR '' ''"

definition digit_char :: "nat \<Rightarrow> char" where
  "digit_char d = char_of (of_char CHR ''0'' + d)"

text \<open>\<open>str(n)\<close> for a natural number: its decimal digits.\<close>

fun str_nat :: "nat \<Rightarrow> string" where
  "str_nat n = (if n < 10 then [digit_char n] else str_nat (n div 10) @ [digit_char (n mod 10)])"

declare str_nat.simps [simp del]

fun str_bool :: "bool \<Rightarrow> string" where
  "str_bool True = ''True''"
| "str_bool False = ''False''"

definition hex_digit :: "nat \<Rightarrow> char" where
  "hex_digit d = (if d < 10 then digit_char d else char_of (of_char CHR ''a'' + (d - 10)))"

text \<open>
  \<open>repr\<close> of a \<open>str\<close>: double quotes when the string holds a single quote and no double
  quote, single quotes otherwise; the quote and the backslash are escaped, tab, newline
  and carriage return are written \<open>\t\<close>, \<open>\n\<close>, \<open>\r\<close>, and every other non-printable
  code point below 256 as \<open>\xhh\<close>.
\<close>

definition py_isprintable :: "char \<Rightarrow> bool" where
  "py_isprintable c =
     (let n = (of_char c :: nat)
      in (32 \<le> n \<and> n < 127) \<or> (161 \<le> n \<and> n \<noteq> 173))"

definition repr_char :: "char \<Rightarrow> char \<Rightarrow> string" where
  "repr_char q c =
     (if c = q \<or> c = CHR 0x5C then [CHR 0x5C, c]
      else if c = CHR 0x09 then [CHR 0x5C, CHR ''t'']
      else if c = CHR 0x0A then [CHR 0x5C, CHR ''n'']
      else if c = CHR 0x0D then [CHR 0x5C, CHR ''r'']
      else if py_isprintable c then [c]
      else [CHR 0x5C, CHR ''x'', hex_digit (of_char c div 16), hex_digit (of_char c mod 16)])"

definition py_repr :: "string \<Rightarrow> string" where
  "py_repr s =
     (let q = (if CHR 0x27 \<in> set s \<and> CHR 0x22 \<notin> set s then CHR 0x22 else CHR 0x27)
      in [q] @ concat (map (repr_char q) s) @ [q])"

section \<open>The operating system, as the program sees it\<close>

text \<open>
  The program reads the device tree and the driver directory and writes the two control
  files. The operating system is a parameter: a state \<open>'s\<close> and the outcome of each call
  the program makes, an exception (\<open>Inl\<close>) or a value (\<open>Inr\<close>). Reading does not change
  the state; \<open>with open(p, 'w') as fd: fd.write(d)\<close> either raises (at \<open>open\<close>, or when the
  buffer is flushed on leaving the block) or yields the next state. \<open>os.path.isdir\<close>
  swallows every \<open>OSError\<close> and returns a plain boolean. \<open>print\<close> writes the line to the
  standard output or raises (an \<open>OSError\<close> when the output cannot be written, a
  \<open>UnicodeEncodeError\<close> when the line cannot be encoded): \<open>os_print\<close> gives the exception,
  or \<open>None\<close> when the line goes through.
\<close>

record 's os =
  os_listdir :: "'s \<Rightarrow> path \<Rightarrow> exn + string list"
  os_read :: "'s \<Rightarrow> path \<Rightarrow> exn + string"
  os_isdir :: "'s \<Rightarrow> path \<Rightarrow> bool"
  os_lstat :: "'s \<Rightarrow> path \<Rightarrow> exn + stat_result"
  os_write :: "'s \<Rightarrow> path \<Rightarrow> string \<Rightarrow> exn + 's"
  os_geteuid :: "'s \<Rightarrow> nat"
  os_check_call :: "'s \<Rightarrow> string list \<Rightarrow> (exn + int) \<times> 's"
  os_print :: "'s \<Rightarrow> string \<Rightarrow> exn option"

text \<open>
  What a run has done so far: the state of the operating system, the lines printed and
  the writes that went through, each in order.
\<close>

record 's world =
  sys :: 's
  stdout :: "string list"
  written :: "(path \<times> string) list"

text \<open>\<open>print(line)\<close>: the line is added to the output, unless \<open>print\<close> raises.\<close>

definition print :: "'s os \<Rightarrow> string \<Rightarrow> 's world \<Rightarrow> (exn + unit) \<times> 's world" where
  "print os line w =
     (case os_print os (sys w) line of
        Some e \<Rightarrow> (Inl e, w)
      | None \<Rightarrow> (Inr (), w\<lparr>stdout := stdout w @ [line]\<rparr>))"

text \<open>\<open>if debug: print(line)\<close>.\<close>

definition debug_print :: "'s os \<Rightarrow> bool \<Rightarrow> string \<Rightarrow> 's world \<Rightarrow> (exn + unit) \<times> 's world" where
  "debug_print os debug line w = (if debug then print os line w else (Inr (), w))"

text \<open>\<open>with open(p, 'w') as fd: fd.write(d)\<close>.\<close>

definition write_file :: "'s os \<Rightarrow> path \<Rightarrow> string \<Rightarrow> 's world \<Rightarrow> (exn + unit) \<times> 's world" where
  "write_file os p d w =
     (case os_write os (sys w) p d of
        Inl e \<Rightarrow> (Inl e, w)
      | Inr s' \<Rightarrow> (Inr (), w\<lparr>sys := s', written := written w @ [(p, d)]\<rparr>))"

section \<open>class YubiKey\<close>

record yubikey =
  dev_id :: string
  product :: string

definition YubiKey :: "string \<Rightarrow> string \<Rightarrow> yubikey" where
  "YubiKey d p = \<lparr>dev_id = d, product = p\<rparr>"

definition usbhid :: path where
  "usbhid = ''/sys/bus/usb/drivers/usbhid''"

definition usbhid_bind :: path where
  "usbhid_bind = ''/sys/bus/usb/drivers/usbhid/bind''"

definition usbhid_unbind :: path where
  "usbhid_unbind = ''/sys/bus/usb/drivers/usbhid/unbind''"

text \<open>\<open>YubiKey.is_active\<close>: only \<open>FileNotFoundError\<close> is caught.\<close>

definition is_active :: "'s os \<Rightarrow> yubikey \<Rightarrow> 's world \<Rightarrow> (exn + bool) \<times> 's world" where
  "is_active os self w =
     (case os_lstat os (sys w) (os_path_join usbhid [dev_id self]) of
        Inr st \<Rightarrow> (Inr (py_bool_stat st), w)
      | Inl e \<Rightarrow> (if e = FileNotFoundError then (Inr False, w) else (Inl e, w)))"

definition activate :: "'s os \<Rightarrow> yubikey \<Rightarrow> 's world \<Rightarrow> (exn + bool) \<times> 's world" where
  "activate os self w =
     (case is_active os self w of
        (Inl e, w1) \<Rightarrow> (Inl e, w1)
      | (Inr a, w1) \<Rightarrow>
          if a then (Inr False, w1)
          else (case write_file os usbhid_bind (dev_id self) w1 of
                  (Inl e, w2) \<Rightarrow> (Inl e, w2)
                | (Inr u, w2) \<Rightarrow> (Inr True, w2)))"

definition deactivate :: "'s os \<Rightarrow> yubikey \<Rightarrow> 's world \<Rightarrow> (exn + bool) \<times> 's world" where
  "deactivate os self w =
     (case is_active os self w of
        (Inl e, w1) \<Rightarrow> (Inl e, w1)
      | (Inr a, w1) \<Rightarrow>
          if \<not> a then (Inr False, w1)
          else (case write_file os usbhid_unbind (dev_id self) w1 of
                  (Inl e, w2) \<Rightarrow> (Inl e, w2)
                | (Inr u, w2) \<Rightarrow> (Inr True, w2)))"

text \<open>\<open>YubiKey.__repr__\<close>, which \<open>'{}'.format(yubikey)\<close> uses as well.\<close>

definition yubikey_repr :: "yubikey \<Rightarrow> string" where
  "yubikey_repr self =
     ''<'' @ ''YubiKey'' @ '' (dev_id='' @ py_repr (dev_id self) @
     '', product='' @ py_repr (product self) @ '')>''"

section \<open>get_yubikeys\<close>

definition basepath :: path where
  "basepath = ''/sys/bus/usb/devices/''"

definition yubico_manufacturer :: string where
  "yubico_manufacturer = ''Yubico\<newline>''"

definition dev_id_chars :: "char set" where
  "dev_id_chars = set ''0123456789-:.''"

text \<open>
  The inner loop, over the listing of a parent's directory: a sub-entry that is not a
  directory, or whose name has a character outside \<open>0123456789-:.\<close>, is passed over; a
  handle is appended for every other one. Nothing in the loop prints or raises.
\<close>

fun subdev_loop ::
  "'s os \<Rightarrow> 's \<Rightarrow> string \<Rightarrow> string \<Rightarrow> string list \<Rightarrow> yubikey list \<Rightarrow> yubikey list" where
  "subdev_loop os s d pr [] yubikeys = yubikeys"
| "subdev_loop os s d pr (subdev # rest) yubikeys =
     (if \<not> os_isdir os s (os_path_join basepath [d, subdev]) then
        subdev_loop os s d pr rest yubikeys
      else if \<not> set subdev \<subseteq> dev_id_chars then
        subdev_loop os s d pr rest yubikeys
      else subdev_loop os s d pr rest (yubikeys @ [YubiKey subdev pr]))"

text \<open>
  The body of \<open>if manufacturer == 'Yubico\n'\<close> for the entry \<open>d\<close>: the two diagnostic
  prints, the read of the product file and the listing of the parent's directory are
  outside any \<open>try\<close>, so an exception of any of them leaves the function.
\<close>

definition scan_parent ::
  "'s os \<Rightarrow> bool \<Rightarrow> string \<Rightarrow> yubikey list \<Rightarrow> 's world \<Rightarrow> (exn + yubikey list) \<times> 's world" where
  "scan_parent os debug d yubikeys w =
     (let manufacturer_path = os_path_join basepath [d, ''manufacturer''];
          product_path = os_path_join basepath [d, ''product'']
      in case debug_print os debug
                (''Found Yubico device at '' @ manufacturer_path @ '', scanning sub-devices'') w of
           (Inl e, w1) \<Rightarrow> (Inl e, w1)
         | (Inr u, w1) \<Rightarrow>
             (case debug_print os debug (''Opening product file '' @ product_path) w1 of
                (Inl e, w2) \<Rightarrow> (Inl e, w2)
              | (Inr u, w2) \<Rightarrow>
                  (case os_read os (sys w2) product_path of
                     Inl e \<Rightarrow> (Inl e, w2)
                   | Inr content \<Rightarrow>
                       (case os_listdir os (sys w2) (os_path_join basepath [d]) of
                          Inl e \<Rightarrow> (Inl e, w2)
                        | Inr subdevs \<Rightarrow>
                            (Inr (subdev_loop os (sys w2) d (py_strip content) subdevs yubikeys),
                             w2)))))"

text \<open>
  The outer loop, over the listing of the device tree's root. An \<open>OSError\<close> of the
  manufacturer file's \<open>open\<close> or \<open>read\<close> is caught and the entry passed over; any other
  exception leaves the function, and so does an exception of the diagnostic print, which
  stands before the \<open>try\<close>.
\<close>

fun devices_loop ::
  "'s os \<Rightarrow> bool \<Rightarrow> string list \<Rightarrow> yubikey list \<Rightarrow> 's world \<Rightarrow> (exn + yubikey list) \<times> 's world" where
  "devices_loop os debug [] yubikeys w = (Inr yubikeys, w)"
| "devices_loop os debug (d # rest) yubikeys w =
     (let manufacturer_path = os_path_join basepath [d, ''manufacturer'']
      in case debug_print os debug (''Opening manufacturer file '' @ manufacturer_path) w of
           (Inl e, w1) \<Rightarrow> (Inl e, w1)
         | (Inr u, w1) \<Rightarrow>
             (case os_read os (sys w1) manufacturer_path of
                Inl exc \<Rightarrow>
                  if is_OSError exc then devices_loop os debug rest yubikeys w1
                  else (Inl exc, w1)
              | Inr manufacturer \<Rightarrow>
                  if manufacturer = yubico_manufacturer then
                    (case scan_parent os debug d yubikeys w1 of
                       (Inl e, w2) \<Rightarrow> (Inl e, w2)
                     | (Inr yubikeys', w2) \<Rightarrow> devices_loop os debug rest yubikeys' w2)
                  else devices_loop os debug rest yubikeys w1))"

definition get_yubikeys :: "'s os \<Rightarrow> bool \<Rightarrow> 's world \<Rightarrow> (exn + yubikey list) \<times> 's world" where
  "get_yubikeys os debug w =
     (case debug_print os debug (''Scanning '' @ basepath) w of
        (Inl e, w1) \<Rightarrow> (Inl e, w1)
      | (Inr u, w1) \<Rightarrow>
          (case os_listdir os (sys w1) basepath of
             Inl e \<Rightarrow> (Inl e, w1)
           | Inr devs \<Rightarrow> devices_loop os debug devs [] w1))"

section \<open>rerun_as_root and main\<close>

text \<open>
  \<open>rerun_as_root\<close> always leaves by an exception: \<open>SystemExit\<close> with the status of the
  \<open>sudo\<close> run (0 when \<open>check_call\<close> returns, the return code of a \<open>CalledProcessError\<close>),
  or whatever else \<open>check_call\<close>, or the \<open>print\<close> before it, raised.
\<close>

definition rerun_as_root :: "'s os \<Rightarrow> string list \<Rightarrow> 's world \<Rightarrow> (exn + unit) \<times> 's world" where
  "rerun_as_root os argv w =
     (case print os ''Root access required, re-running with sudo'' w of
        (Inl e, w1) \<Rightarrow> (Inl e, w1)
      | (Inr u, w1) \<Rightarrow>
          (let cmd = [''sudo''] @ argv
           in case os_check_call os (sys w1) cmd of
                (Inr rc, s') \<Rightarrow> (Inl (SystemExit rc), w1\<lparr>sys := s'\<rparr>)
              | (Inl (CalledProcessError rc), s') \<Rightarrow> (Inl (SystemExit rc), w1\<lparr>sys := s'\<rparr>)
              | (Inl e, s') \<Rightarrow> (Inl e, w1\<lparr>sys := s'\<rparr>)))"

text \<open>What \<open>argparse\<close> hands to \<open>main\<close>: one of the three commands and the debug flag.\<close>

datatype command = On | Off | List

record args =
  command :: command
  debug :: bool

fun on_loop :: "'s os \<Rightarrow> yubikey list \<Rightarrow> 's world \<Rightarrow> (exn + unit) \<times> 's world" where
  "on_loop os [] w = (Inr (), w)"
| "on_loop os (yubikey # rest) w =
     (case activate os yubikey w of
        (Inl e, w1) \<Rightarrow> (Inl e, w1)
      | (Inr r, w1) \<Rightarrow>
          (case (if r
                 then print os (''Yubikey activated successfully: '' @ yubikey_repr yubikey) w1
                 else print os (''Yubikey already active: '' @ yubikey_repr yubikey) w1) of
             (Inl e, w2) \<Rightarrow> (Inl e, w2)
           | (Inr u, w2) \<Rightarrow> on_loop os rest w2))"

fun off_loop :: "'s os \<Rightarrow> yubikey list \<Rightarrow> 's world \<Rightarrow> (exn + unit) \<times> 's world" where
  "off_loop os [] w = (Inr (), w)"
| "off_loop os (yubikey # rest) w =
     (case deactivate os yubikey w of
        (Inl e, w1) \<Rightarrow> (Inl e, w1)
      | (Inr r, w1) \<Rightarrow>
          (case (if r
                 then print os (''Yubikey deactivated successfully: '' @ yubikey_repr yubikey) w1
                 else print os (''Yubikey already inactive: '' @ yubikey_repr yubikey) w1) of
             (Inl e, w2) \<Rightarrow> (Inl e, w2)
           | (Inr u, w2) \<Rightarrow> off_loop os rest w2))"

text \<open>\<open>for idx, yubikey in enumerate(yubikeys, 1)\<close>, with \<open>idx\<close> as the loop's counter.\<close>

fun list_loop :: "'s os \<Rightarrow> nat \<Rightarrow> yubikey list \<Rightarrow> 's world \<Rightarrow> (exn + unit) \<times> 's world" where
  "list_loop os idx [] w = (Inr (), w)"
| "list_loop os idx (yubikey # rest) w =
     (case is_active os yubikey w of
        (Inl e, w1) \<Rightarrow> (Inl e, w1)
      | (Inr s, w1) \<Rightarrow>
          (case print os (str_nat idx @ '') '' @ py_ljust 10 (dev_id yubikey) @ '' '' @
                          product yubikey @ '' (active='' @ str_bool s @ '')'') w1 of
             (Inl e, w2) \<Rightarrow> (Inl e, w2)
           | (Inr u, w2) \<Rightarrow> list_loop os (idx + 1) rest w2))"

definition main :: "'s os \<Rightarrow> string list \<Rightarrow> args \<Rightarrow> 's world \<Rightarrow> (exn + unit) \<times> 's world" where
  "main os argv args w =
     (case (if command args \<in> {On, Off} \<and> os_geteuid os (sys w) \<noteq> 0
            then rerun_as_root os argv w else (Inr (), w)) of
        (Inl e, w1) \<Rightarrow> (Inl e, w1)
      | (Inr u, w1) \<Rightarrow>
          (case get_yubikeys os (debug args) w1 of
             (Inl e, w2) \<Rightarrow> (Inl e, w2)
           | (Inr yubikeys, w2) \<Rightarrow>
               (case command args of
                  On \<Rightarrow> on_loop os yubikeys w2
                | Off \<Rightarrow> off_loop os yubikeys w2
                | List \<Rightarrow> list_loop os 1 yubikeys w2)))"

section \<open>A test double for the operating system\<close>

text \<open>
  A small file tree, to run the program on: a path is a regular file with its content, a
  directory with its listing, a symbolic link (what the driver directory holds for a
  bound interface), or a path that refuses every access. A write to the driver's \<open>bind\<close>
  file makes the link named by the identifier under the driver directory, a write to
  \<open>unbind\<close> removes it; the driver refuses the identifiers listed in \<open>refused\<close>. The
  standard output takes every line.
\<close>

datatype node = File string | Dir "string list" | Link | Denied

record sysfs =
  tree :: "(path \<times> node) list"
  refused :: "string list"
  euid :: nat

definition sysfs_listdir :: "sysfs \<Rightarrow> path \<Rightarrow> exn + string list" where
  "sysfs_listdir s p =
     (case map_of (tree s) p of
        None \<Rightarrow> Inl FileNotFoundError
      | Some (Dir names) \<Rightarrow> Inr names
      | Some Denied \<Rightarrow> Inl PermissionError
      | Some (File c) \<Rightarrow> Inl NotADirectoryError
      | Some Link \<Rightarrow> Inl NotADirectoryError)"

definition sysfs_read :: "sysfs \<Rightarrow> path \<Rightarrow> exn + string" where
  "sysfs_read s p =
     (case map_of (tree s) p of
        None \<Rightarrow> Inl FileNotFoundError
      | Some (File c) \<Rightarrow> Inr c
      | Some Denied \<Rightarrow> Inl PermissionError
      | Some (Dir names) \<Rightarrow> Inl IsADirectoryError
      | Some Link \<Rightarrow> Inl IsADirectoryError)"

definition sysfs_isdir :: "sysfs \<Rightarrow> path \<Rightarrow> bool" where
  "sysfs_isdir s p = (case map_of (tree s) p of Some (Dir names) \<Rightarrow> True | _ \<Rightarrow> False)"

definition sysfs_lstat :: "sysfs \<Rightarrow> path \<Rightarrow> exn + stat_result" where
  "sysfs_lstat s p =
     (case map_of (tree s) p of
        None \<Rightarrow> Inl FileNotFoundError
      | Some Denied \<Rightarrow> Inl PermissionError
      | Some n \<Rightarrow> Inr \<lparr>st_mode = 0, st_size = 0\<rparr>)"

definition sysfs_write :: "sysfs \<Rightarrow> path \<Rightarrow> string \<Rightarrow> exn + sysfs" where
  "sysfs_write s p d =
     (if p = usbhid_bind then
        (if d \<in> set (refused s) then Inl OtherOSError
         else Inr (s\<lparr>tree := (os_path_join usbhid [d], Link) # tree s\<rparr>))
      else if p = usbhid_unbind then
        (if d \<in> set (refused s) then Inl OtherOSError
         else Inr (s\<lparr>tree := filter (\<lambda>(q, n). q \<noteq> os_path_join usbhid [d]) (tree s)\<rparr>))
      else Inl PermissionError)"

definition sysfs_os :: "sysfs os" where
  "sysfs_os =
     \<lparr>os_listdir = sysfs_listdir, os_read = sysfs_read, os_isdir = sysfs_isdir,
      os_lstat = sysfs_lstat, os_write = sysfs_write, os_geteuid = euid,
      os_check_call = (\<lambda>s cmd. (Inr 0, s)), os_print = (\<lambda>s line. None)\<rparr>"

text \<open>The same, with a standard output that is closed: every \<open>print\<close> raises.\<close>

definition closed_stdout_os :: "sysfs os" where
  "closed_stdout_os = sysfs_os\<lparr>os_print := (\<lambda>s line. Some OtherOSError)\<rparr>"

definition start :: "'s \<Rightarrow> 's world" where
  "start s = \<lparr>sys = s, stdout = [], written = []\<rparr>"

text \<open>
  One parent \<open>1-2\<close> of the vendor with the interface \<open>1-2:1.0\<close>, nothing bound to the
  driver.
\<close>

definition one_key_tree :: "(path \<times> node) list" where
  "one_key_tree =
     [(''/sys/bus/usb/devices/'', Dir [''1-2'']),
      (''/sys/bus/usb/devices/1-2'', Dir [''manufacturer'', ''product'', ''1-2:1.0'']),
      (''/sys/bus/usb/devices/1-2/manufacturer'', File ''Yubico\<newline>''),
      (''/sys/bus/usb/devices/1-2/product'', File ''YubiKey 5''),
      (''/sys/bus/usb/devices/1-2/1-2:1.0'', Dir [])]"

definition one_key :: sysfs where
  "one_key = \<lparr>tree = one_key_tree, refused = [], euid = 0\<rparr>"

definition two_keys_tree :: "(path \<times> node) list" where
  "two_keys_tree =
     [(''/sys/bus/usb/devices/'', Dir [''usb1'', ''1-0:1.0'', ''1-2'']),
      (''/sys/bus/usb/devices/usb1'', Dir [''manufacturer'', ''product'', ''1-0:1.0'']),
      (''/sys/bus/usb/devices/usb1/manufacturer'', File ''Linux 6.1 xhci-hcd\<newline>''),
      (''/sys/bus/usb/devices/usb1/product'', File ''xHCI Host Controller\<newline>''),
      (''/sys/bus/usb/devices/usb1/1-0:1.0'', Dir []),
      (''/sys/bus/usb/devices/1-0:1.0'', Dir []),
      (''/sys/bus/usb/devices/1-2'',
         Dir [''manufacturer'', ''product'', ''1-2:1.0'', ''power'', ''1-2:1.1'']),
      (''/sys/bus/usb/devices/1-2/manufacturer'', File ''Yubico\<newline>''),
      (''/sys/bus/usb/devices/1-2/product'', File ''YubiKey OTP+FIDO+CCID\<newline>''),
      (''/sys/bus/usb/devices/1-2/1-2:1.0'', Dir []),
      (''/sys/bus/usb/devices/1-2/power'', Dir []),
      (''/sys/bus/usb/devices/1-2/1-2:1.1'', Dir [])]"

text \<open>
  A hub, an interface node without a manufacturer file, and a parent \<open>1-2\<close> of the
  vendor with two interfaces and a \<open>power\<close> directory; nothing bound to the driver.
\<close>

definition two_keys :: sysfs where
  "two_keys = \<lparr>tree = two_keys_tree, refused = [], euid = 0\<rparr>"

text \<open>The same, with a driver that refuses the first interface.\<close>

definition two_keys_refusing :: sysfs where
  "two_keys_refusing = \<lparr>tree = two_keys_tree, refused = [''1-2:1.0''], euid = 0\<rparr>"

text \<open>A parent whose manufacturer file cannot be read for lack of permission.\<close>

definition unreadable :: sysfs where
  "unreadable =
     \<lparr>tree =
        [(''/sys/bus/usb/devices/'', Dir [''1-2'']),
         (''/sys/bus/usb/devices/1-2'', Dir [''manufacturer'', ''product'', ''1-2:1.0'']),
         (''/sys/bus/usb/devices/1-2/manufacturer'', Denied),
         (''/sys/bus/usb/devices/1-2/product'', File ''YubiKey 5''),
         (''/sys/bus/usb/devices/1-2/1-2:1.0'', Dir [])],
      refused = [], euid = 0\<rparr>"

text \<open>
  A parent \<open>1-1\<close> whose manufacturer file cannot be read for lack of permission, listed
  before the key \<open>1-2\<close>.
\<close>

definition unreadable_first :: sysfs where
  "unreadable_first =
     \<lparr>tree =
        [(''/sys/bus/usb/devices/'', Dir [''1-1'', ''1-2'']),
         (''/sys/bus/usb/devices/1-1'', Dir [''manufacturer'', ''product'', ''1-1:1.0'']),
         (''/sys/bus/usb/devices/1-1/manufacturer'', Denied),
         (''/sys/bus/usb/devices/1-1/product'', File ''YubiKey 4\<newline>''),
         (''/sys/bus/usb/devices/1-1/1-1:1.0'', Dir []),
         (''/sys/bus/usb/devices/1-2'', Dir [''manufacturer'', ''product'', ''1-2:1.0'']),
         (''/sys/bus/usb/devices/1-2/manufacturer'', File ''Yubico\<newline>''),
         (''/sys/bus/usb/devices/1-2/product'', File ''YubiKey 5''),
         (''/sys/bus/usb/devices/1-2/1-2:1.0'', Dir [])],
      refused = [], euid = 0\<rparr>"

text \<open>The single key, bound to the driver.\<close>

definition bound_key :: sysfs where
  "bound_key =
     \<lparr>tree = (''/sys/bus/usb/drivers/usbhid/1-2:1.0'', Link) # one_key_tree,
      refused = [], euid = 0\<rparr>"

text \<open>The single key, with a driver directory that refuses the look-up of its entry.\<close>

definition denied_driver :: sysfs where
  "denied_driver =
     \<lparr>tree = (''/sys/bus/usb/drivers/usbhid/1-2:1.0'', Denied) # one_key_tree,
      refused = [], euid = 0\<rparr>"

text \<open>The two interfaces, both bound, with a driver that refuses the first one.\<close>

definition bound_refusing :: sysfs where
  "bound_refusing =
     \<lparr>tree = (''/sys/bus/usb/drivers/usbhid/1-2:1.0'', Link) #
             (''/sys/bus/usb/drivers/usbhid/1-2:1.1'', Link) # two_keys_tree,
      refused = [''1-2:1.0''], euid = 0\<rparr>"

text \<open>
  Three parents of the vendor: \<open>1-1\<close> is sound, \<open>1-2\<close> has no product file, the directory
  of \<open>1-3\<close> cannot be listed.
\<close>

definition broken_parents :: sysfs where
  "broken_parents =
     \<lparr>tree =
        [(''/sys/bus/usb/devices/'', Dir [''1-1'', ''1-2'', ''1-3'']),
         (''/sys/bus/usb/devices/1-1'', Dir [''manufacturer'', ''product'', ''1-1:1.0'']),
         (''/sys/bus/usb/devices/1-1/manufacturer'', File ''Yubico\<newline>''),
         (''/sys/bus/usb/devices/1-1/product'', File ''YubiKey 4\<newline>''),
         (''/sys/bus/usb/devices/1-1/1-1:1.0'', Dir []),
         (''/sys/bus/usb/devices/1-2'', Dir [''manufacturer'', ''1-2:1.0'']),
         (''/sys/bus/usb/devices/1-2/manufacturer'', File ''Yubico\<newline>''),
         (''/sys/bus/usb/devices/1-2/1-2:1.0'', Dir []),
         (''/sys/bus/usb/devices/1-3'', Denied),
         (''/sys/bus/usb/devices/1-3/manufacturer'', File ''Yubico\<newline>''),
         (''/sys/bus/usb/devices/1-3/product'', File ''YubiKey 5\<newline>'')],
      refused = [], euid = 0\<rparr>"

text \<open>No device tree at all.\<close>

definition no_tree :: sysfs where
  "no_tree = \<lparr>tree = [], refused = [], euid = 0\<rparr>"

text \<open>The handles the scans of these trees give.\<close>

definition key5 :: yubikey where
  "key5 = \<lparr>dev_id = ''1-2:1.0'', product = ''YubiKey 5''\<rparr>"

definition otp0 :: yubikey where
  "otp0 = \<lparr>dev_id = ''1-2:1.0'', product = ''YubiKey OTP+FIDO+CCID''\<rparr>"

definition otp1 :: yubikey where
  "otp1 = \<lparr>dev_id = ''1-2:1.1'', product = ''YubiKey OTP+FIDO+CCID''\<rparr>"

definition key4 :: yubikey where
  "key4 = \<lparr>dev_id = ''1-1:1.0'', product = ''YubiKey 4''\<rparr>"

text \<open>The single key once the bind write has gone through, and once the unbind write has.\<close>

definition one_key_after_bind :: sysfs where
  "one_key_after_bind =
     one_key\<lparr>tree := (''/sys/bus/usb/drivers/usbhid/1-2:1.0'', Link) # tree one_key\<rparr>"

definition bound_key_after_unbind :: sysfs where
  "bound_key_after_unbind = bound_key\<lparr>tree := one_key_tree\<rparr>"

section \<open>Notions the properties are stated with\<close>

text \<open>The second world is the first one with more lines printed, and nothing else.\<close>

definition only_printed :: "'s world \<Rightarrow> 's world \<Rightarrow> bool" where
  "only_printed w w' \<longleftrightarrow> (\<exists>ls. w' = w\<lparr>stdout := stdout w @ ls\<rparr>)"

text \<open>No diagnostic print can raise: the debug flag is off, or the output takes every line.\<close>

definition prints_ok :: "'s os \<Rightarrow> bool \<Rightarrow> 's \<Rightarrow> bool" where
  "prints_ok os dbg s \<longleftrightarrow> (dbg \<longrightarrow> (\<forall>line. os_print os s line = None))"

text \<open>What opening and reading the manufacturer file of the entry \<open>d\<close> gives.\<close>

definition manufacturer_of :: "'s os \<Rightarrow> 's \<Rightarrow> string \<Rightarrow> exn + string" where
  "manufacturer_of os s d = os_read os s (os_path_join basepath [d, ''manufacturer''])"

text \<open>The manufacturer file of \<open>d\<close> exists, can be read and holds exactly \<open>Yubico\n\<close>.\<close>

definition is_yubico :: "'s os \<Rightarrow> 's \<Rightarrow> string \<Rightarrow> bool" where
  "is_yubico os s d \<longleftrightarrow> manufacturer_of os s d = Inr yubico_manufacturer"

text \<open>The handles the scan of the parent \<open>d\<close> appends (none when it raises).\<close>

definition parent_handles :: "'s os \<Rightarrow> 's \<Rightarrow> string \<Rightarrow> yubikey list" where
  "parent_handles os s d =
     (case fst (scan_parent os False d [] (start s)) of Inr ys \<Rightarrow> ys | Inl e \<Rightarrow> [])"

text \<open>
  The content of the product file of \<open>d\<close> and the listing of its directory, where they
  can be read.
\<close>

definition product_of :: "'s os \<Rightarrow> 's \<Rightarrow> string \<Rightarrow> string" where
  "product_of os s d =
     (case os_read os s (os_path_join basepath [d, ''product'']) of Inr c \<Rightarrow> c | Inl e \<Rightarrow> [])"

definition subdevs_of :: "'s os \<Rightarrow> 's \<Rightarrow> string \<Rightarrow> string list" where
  "subdevs_of os s d =
     (case os_listdir os s (os_path_join basepath [d]) of Inr l \<Rightarrow> l | Inl e \<Rightarrow> [])"

definition good_subdev :: "'s os \<Rightarrow> 's \<Rightarrow> string \<Rightarrow> string \<Rightarrow> bool" where
  "good_subdev os s d subdev \<longleftrightarrow>
     os_isdir os s (os_path_join basepath [d, subdev]) \<and> set subdev \<subseteq> dev_id_chars"

text \<open>The outer loop's announcement of the manufacturer file of \<open>d\<close>.\<close>

definition after_open :: "'s os \<Rightarrow> bool \<Rightarrow> string \<Rightarrow> 's world \<Rightarrow> (exn + unit) \<times> 's world" where
  "after_open os dbg d w =
     debug_print os dbg
       (''Opening manufacturer file '' @ os_path_join basepath [d, ''manufacturer'']) w"

section \<open>Printing changes nothing but the output\<close>

lemma only_printed_refl: "only_printed w w"
  unfolding only_printed_def by (rule exI [of _ "[]"]) simp

lemma only_printed_trans:
  "only_printed w w' \<Longrightarrow> only_printed w' w'' \<Longrightarrow> only_printed w w''"
  unfolding only_printed_def by auto

lemma only_printed_sys: "only_printed w w' \<Longrightarrow> sys w' = sys w"
  unfolding only_printed_def by auto

lemma only_printed_written: "only_printed w w' \<Longrightarrow> written w' = written w"
  unfolding only_printed_def by auto

lemma only_printed_print: "only_printed w (snd (print os l w))"
proof (cases "os_print os (sys w) l")
  case None
  then have "snd (print os l w) = w\<lparr>stdout := stdout w @ [l]\<rparr>" by (simp add: print_def)
  then show ?thesis unfolding only_printed_def by blast
next
  case (Some e)
  then show ?thesis by (simp add: print_def only_printed_refl)
qed

lemma only_printed_debug_print: "only_printed w (snd (debug_print os dbg l w))"
  by (simp add: debug_print_def only_printed_print only_printed_refl)

lemma debug_print_False [simp]: "debug_print os False l w = (Inr (), w)"
  by (simp add: debug_print_def)

lemma debug_print_raises: "debug_print os dbg l w = (Inl e, w1) \<Longrightarrow> w1 = w"
  by (auto simp: debug_print_def print_def split: if_splits option.splits)

lemma debug_print_sys: "debug_print os dbg l w = (r, w1) \<Longrightarrow> sys w1 = sys w"
  using only_printed_sys [OF only_printed_debug_print [of w os dbg l]] by simp

lemma debug_print_ok:
  "prints_ok os dbg (sys w) \<Longrightarrow> \<exists>w1. debug_print os dbg l w = (Inr (), w1)"
  by (cases dbg) (simp_all add: prints_ok_def debug_print_def print_def)

lemma subdev_loop_eq:
  "subdev_loop os s d pr subs acc =
     acc @ map (\<lambda>n. YubiKey n pr) (filter (good_subdev os s d) subs)"
  by (induction subs arbitrary: acc) (simp_all add: good_subdev_def)

text \<open>
  The outcome of the scan of the parent \<open>d\<close> with the debug flag off, from the two reads
  alone.
\<close>

lemma scan_parent_quiet:
  "scan_parent os False d acc w =
     (case os_read os (sys w) (os_path_join basepath [d, ''product'']) of
        Inl e \<Rightarrow> (Inl e, w)
      | Inr content \<Rightarrow>
          (case os_listdir os (sys w) (os_path_join basepath [d]) of
             Inl e \<Rightarrow> (Inl e, w)
           | Inr subdevs \<Rightarrow> (Inr (subdev_loop os (sys w) d (py_strip content) subdevs acc), w)))"
  by (simp add: scan_parent_def Let_def)

lemma scan_parent_quiet_snd: "snd (scan_parent os False d acc w) = w"
  by (simp add: scan_parent_quiet split: sum.splits)

lemma scan_parent_quiet_fst:
  "sys w = sys w' \<Longrightarrow> fst (scan_parent os False d acc w) = fst (scan_parent os False d acc w')"
  by (simp add: scan_parent_quiet split: sum.splits)

text \<open>With the flag on, the scan of a parent ends on a print that raises, or goes as with
  the flag off.\<close>

lemma scan_parent_debug:
  "(\<exists>e. fst (scan_parent os dbg d acc w) = Inl e) \<or>
   fst (scan_parent os dbg d acc w) = fst (scan_parent os False d acc w)"
proof -
  let ?l1 = "''Found Yubico device at '' @ os_path_join basepath [d, ''manufacturer''] @
    '', scanning sub-devices''"
  let ?l2 = "''Opening product file '' @ os_path_join basepath [d, ''product'']"
  obtain r1 w1 where p1: "debug_print os dbg ?l1 w = (r1, w1)"
    by (cases "debug_print os dbg ?l1 w")
  obtain r2 w2 where p2: "debug_print os dbg ?l2 w1 = (r2, w2)"
    by (cases "debug_print os dbg ?l2 w1")
  have s: "sys w2 = sys w" using debug_print_sys [OF p1] debug_print_sys [OF p2] by simp
  show ?thesis
  proof (cases r1)
    case (Inl e)
    with p1 show ?thesis by (simp add: scan_parent_def Let_def)
  next
    case r1: (Inr u1)
    show ?thesis
    proof (cases r2)
      case (Inl e)
      with p1 p2 r1 show ?thesis by (simp add: scan_parent_def Let_def)
    next
      case (Inr u2)
      with p1 p2 r1 s have "fst (scan_parent os dbg d acc w) = fst (scan_parent os False d acc w)"
        by (simp add: scan_parent_quiet) (simp add: scan_parent_def Let_def split: sum.splits)
      then show ?thesis ..
    qed
  qed
qed

lemma scan_parent_prints_ok:
  assumes "prints_ok os dbg (sys w)"
  shows "fst (scan_parent os dbg d acc w) = fst (scan_parent os False d acc w)"
proof -
  let ?l1 = "''Found Yubico device at '' @ os_path_join basepath [d, ''manufacturer''] @
    '', scanning sub-devices''"
  let ?l2 = "''Opening product file '' @ os_path_join basepath [d, ''product'']"
  obtain w1 where p1: "debug_print os dbg ?l1 w = (Inr (), w1)"
    using debug_print_ok [OF assms] by blast
  have s1: "sys w1 = sys w" by (rule debug_print_sys [OF p1])
  obtain w2 where p2: "debug_print os dbg ?l2 w1 = (Inr (), w2)"
    using debug_print_ok [of os dbg w1] assms s1 by auto
  have s2: "sys w2 = sys w" using debug_print_sys [OF p2] s1 by simp
  from p1 p2 s2 show ?thesis
    by (simp add: scan_parent_quiet) (simp add: scan_parent_def Let_def split: sum.splits)
qed

lemma scan_parent_only_printed: "only_printed w (snd (scan_parent os dbg d acc w))"
proof -
  let ?l1 = "''Found Yubico device at '' @ os_path_join basepath [d, ''manufacturer''] @
    '', scanning sub-devices''"
  let ?l2 = "''Opening product file '' @ os_path_join basepath [d, ''product'']"
  obtain r1 w1 where p1: "debug_print os dbg ?l1 w = (r1, w1)"
    by (cases "debug_print os dbg ?l1 w")
  obtain r2 w2 where p2: "debug_print os dbg ?l2 w1 = (r2, w2)"
    by (cases "debug_print os dbg ?l2 w1")
  have o1: "only_printed w w1" using only_printed_debug_print [of w os dbg ?l1] p1 by simp
  have o2: "only_printed w1 w2" using only_printed_debug_print [of w1 os dbg ?l2] p2 by simp
  have o12: "only_printed w w2" by (rule only_printed_trans [OF o1 o2])
  show ?thesis
    using p1 p2 o1 o12
    by (cases r1; cases r2) (simp_all add: scan_parent_def Let_def split: sum.splits)
qed

lemma scan_parent_sys: "scan_parent os dbg d acc w = (r, w') \<Longrightarrow> sys w' = sys w"
  using only_printed_sys [OF scan_parent_only_printed [of w os dbg d acc]] by simp

lemma scan_parent_acc:
  "fst (scan_parent os False d acc w) = Inr ys \<Longrightarrow> ys = acc @ parent_handles os (sys w) d"
  by (auto simp: scan_parent_quiet parent_handles_def start_def subdev_loop_eq split: sum.splits)

section \<open>The outer loop, one entry at a time\<close>

lemma after_open_False [simp]: "after_open os False d w = (Inr (), w)"
  by (simp add: after_open_def)

lemma after_open_sys: "after_open os dbg d w = (r, w1) \<Longrightarrow> sys w1 = sys w"
  unfolding after_open_def by (rule debug_print_sys)

lemma after_open_only_printed:
  assumes "after_open os dbg d w = (r, w1)"
  shows "only_printed w w1"
proof -
  have "only_printed w (snd (after_open os dbg d w))"
    unfolding after_open_def by (rule only_printed_debug_print)
  with assms show ?thesis by simp
qed

lemma after_open_ok: "prints_ok os dbg (sys w) \<Longrightarrow> \<exists>w1. after_open os dbg d w = (Inr (), w1)"
  unfolding after_open_def by (rule debug_print_ok)

lemma devices_loop_print_raises:
  "after_open os dbg d w = (Inl e, w1) \<Longrightarrow> devices_loop os dbg (d # rest) acc w = (Inl e, w1)"
  by (simp add: after_open_def Let_def)

lemma devices_loop_skip_error:
  "after_open os dbg d w = (Inr u, w1) \<Longrightarrow> manufacturer_of os (sys w) d = Inl e \<Longrightarrow>
   is_OSError e \<Longrightarrow>
   devices_loop os dbg (d # rest) acc w = devices_loop os dbg rest acc w1"
  using after_open_sys [of os dbg d w "Inr u" w1]
  by (simp add: manufacturer_of_def after_open_def Let_def)

lemma devices_loop_raise:
  "after_open os dbg d w = (Inr u, w1) \<Longrightarrow> manufacturer_of os (sys w) d = Inl e \<Longrightarrow>
   \<not> is_OSError e \<Longrightarrow>
   devices_loop os dbg (d # rest) acc w = (Inl e, w1)"
  using after_open_sys [of os dbg d w "Inr u" w1]
  by (simp add: manufacturer_of_def after_open_def Let_def)

lemma devices_loop_skip_other:
  "after_open os dbg d w = (Inr u, w1) \<Longrightarrow> manufacturer_of os (sys w) d = Inr m \<Longrightarrow>
   m \<noteq> yubico_manufacturer \<Longrightarrow>
   devices_loop os dbg (d # rest) acc w = devices_loop os dbg rest acc w1"
  using after_open_sys [of os dbg d w "Inr u" w1]
  by (simp add: manufacturer_of_def after_open_def Let_def)

lemma devices_loop_match:
  "after_open os dbg d w = (Inr u, w1) \<Longrightarrow> manufacturer_of os (sys w) d = Inr yubico_manufacturer \<Longrightarrow>
   devices_loop os dbg (d # rest) acc w =
     (case scan_parent os dbg d acc w1 of
        (Inl e, w2) \<Rightarrow> (Inl e, w2)
      | (Inr acc', w2) \<Rightarrow> devices_loop os dbg rest acc' w2)"
  using after_open_sys [of os dbg d w "Inr u" w1]
  by (simp add: manufacturer_of_def after_open_def Let_def)

declare devices_loop.simps(2) [simp del]

text \<open>With the debug flag off, the loop prints nothing and looks at the system only.\<close>

lemma devices_loop_quiet: "snd (devices_loop os False devs acc w) = w"
proof (induction devs arbitrary: acc w)
  case Nil
  show ?case by simp
next
  case (Cons d rest)
  have ao: "after_open os False d w = (Inr (), w)" by simp
  show ?case
  proof (cases "manufacturer_of os (sys w) d")
    case (Inl e)
    then show ?thesis
      by (cases "is_OSError e")
         (simp_all add: devices_loop_skip_error [OF ao] devices_loop_raise [OF ao] Cons.IH)
  next
    case (Inr m)
    show ?thesis
    proof (cases "m = yubico_manufacturer")
      case False
      with Inr show ?thesis by (simp add: devices_loop_skip_other [OF ao] Cons.IH)
    next
      case True
      obtain r w2 where sp: "scan_parent os False d acc w = (r, w2)"
        by (cases "scan_parent os False d acc w")
      have "w2 = w" using scan_parent_quiet_snd [of os d acc w] sp by simp
      with Inr True sp show ?thesis
        by (simp add: devices_loop_match [OF ao] Cons.IH split: sum.splits)
    qed
  qed
qed

lemma devices_loop_quiet_fst:
  "sys w = sys w' \<Longrightarrow>
   fst (devices_loop os False devs acc w) = fst (devices_loop os False devs acc w')"
proof (induction devs arbitrary: acc)
  case Nil
  show ?case by simp
next
  case (Cons d rest)
  have ao: "after_open os False d w = (Inr (), w)" and ao': "after_open os False d w' = (Inr (), w')"
    by simp_all
  have m: "manufacturer_of os (sys w') d = manufacturer_of os (sys w) d"
    using Cons.prems by simp
  show ?case
  proof (cases "manufacturer_of os (sys w) d")
    case (Inl e)
    with m show ?thesis
      by (cases "is_OSError e")
         (simp_all add: devices_loop_skip_error [OF ao] devices_loop_raise [OF ao]
            devices_loop_skip_error [OF ao'] devices_loop_raise [OF ao'] Cons.IH [OF Cons.prems])
  next
    case (Inr mf)
    show ?thesis
    proof (cases "mf = yubico_manufacturer")
      case False
      with Inr m show ?thesis
        by (simp add: devices_loop_skip_other [OF ao] devices_loop_skip_other [OF ao']
            Cons.IH [OF Cons.prems])
    next
      case True
      obtain r w2 where sp: "scan_parent os False d acc w = (r, w2)"
        by (cases "scan_parent os False d acc w")
      obtain r' w2' where sp': "scan_parent os False d acc w' = (r', w2')"
        by (cases "scan_parent os False d acc w'")
      have rr: "r' = r"
        using scan_parent_quiet_fst [OF Cons.prems, of os d acc] sp sp' by simp
      have ww: "w2 = w" "w2' = w'"
        using scan_parent_quiet_snd [of os d acc w] scan_parent_quiet_snd [of os d acc w'] sp sp'
        by simp_all
      show ?thesis
        using Inr True m sp sp' rr ww Cons.IH [OF Cons.prems]
        by (simp add: devices_loop_match [OF ao] devices_loop_match [OF ao'] split: sum.splits)
    qed
  qed
qed

text \<open>
  With the flag on, a run that returns a list returns the list of the run with the flag
  off; and where no print can raise, the two runs have the same outcome.
\<close>

lemma devices_loop_debug_Inr:
  "fst (devices_loop os dbg devs acc w) = Inr ys \<Longrightarrow>
   fst (devices_loop os False devs acc w) = Inr ys"
proof (induction devs arbitrary: acc w)
  case Nil
  then show ?case by simp
next
  case (Cons d rest)
  have aq: "after_open os False d w = (Inr (), w)" by simp
  obtain r1 w1 where ao1: "after_open os dbg d w = (r1, w1)"
    by (cases "after_open os dbg d w")
  have s1: "sys w1 = sys w" by (rule after_open_sys [OF ao1])
  show ?case
  proof (cases r1)
    case (Inl e)
    with ao1 Cons.prems show ?thesis by (simp add: devices_loop_print_raises)
  next
    case (Inr u)
    with ao1 have ao: "after_open os dbg d w = (Inr u, w1)" by simp
    have move: "fst (devices_loop os False rest acc' w1') = Inr ys"
      if "fst (devices_loop os dbg rest acc' w1') = Inr ys" for acc' w1'
      using Cons.IH [OF that] .
    show ?thesis
    proof (cases "manufacturer_of os (sys w) d")
      case (Inl e)
      show ?thesis
      proof (cases "is_OSError e")
        case True
        with Inl Cons.prems have "fst (devices_loop os dbg rest acc w1) = Inr ys"
          by (simp add: devices_loop_skip_error [OF ao])
        from move [OF this] have "fst (devices_loop os False rest acc w) = Inr ys"
          using devices_loop_quiet_fst [OF s1, of os rest acc] by simp
        with Inl True show ?thesis by (simp add: devices_loop_skip_error [OF aq])
      next
        case False
        with Inl Cons.prems show ?thesis by (simp add: devices_loop_raise [OF ao])
      qed
    next
      case m: (Inr mf)
      show ?thesis
      proof (cases "mf = yubico_manufacturer")
        case False
        with m Cons.prems have "fst (devices_loop os dbg rest acc w1) = Inr ys"
          by (simp add: devices_loop_skip_other [OF ao])
        from move [OF this] have "fst (devices_loop os False rest acc w) = Inr ys"
          using devices_loop_quiet_fst [OF s1, of os rest acc] by simp
        with m False show ?thesis by (simp add: devices_loop_skip_other [OF aq])
      next
        case True
        obtain r2 w2 where sp: "scan_parent os dbg d acc w1 = (r2, w2)"
          by (cases "scan_parent os dbg d acc w1")
        have s2: "sys w2 = sys w" using scan_parent_sys [OF sp] s1 by simp
        show ?thesis
        proof (cases r2)
          case (Inl e)
          with m True sp Cons.prems show ?thesis by (simp add: devices_loop_match [OF ao])
        next
          case acc': (Inr acc')
          with m True sp Cons.prems have "fst (devices_loop os dbg rest acc' w2) = Inr ys"
            by (simp add: devices_loop_match [OF ao])
          from move [OF this] have rest: "fst (devices_loop os False rest acc' w) = Inr ys"
            using devices_loop_quiet_fst [OF s2, of os rest acc'] by simp
          have "fst (scan_parent os False d acc w1) = Inr acc'"
            using scan_parent_debug [of os dbg d acc w1] sp acc' by auto
          then have "fst (scan_parent os False d acc w) = Inr acc'"
            using scan_parent_quiet_fst [OF s1, of os d acc] by simp
          then have "scan_parent os False d acc w = (Inr acc', w)"
            using scan_parent_quiet_snd [of os d acc w]
            by (cases "scan_parent os False d acc w") simp
          with m True rest show ?thesis by (simp add: devices_loop_match [OF aq])
        qed
      qed
    qed
  qed
qed

lemma devices_loop_prints_ok:
  "prints_ok os dbg (sys w) \<Longrightarrow>
   fst (devices_loop os dbg devs acc w) = fst (devices_loop os False devs acc w)"
proof (induction devs arbitrary: acc w)
  case Nil
  show ?case by simp
next
  case (Cons d rest)
  have aq: "after_open os False d w = (Inr (), w)" by simp
  obtain w1 where ao: "after_open os dbg d w = (Inr (), w1)"
    using after_open_ok [OF Cons.prems] by blast
  have s1: "sys w1 = sys w" by (rule after_open_sys [OF ao])
  have move: "fst (devices_loop os dbg rest acc' w') = fst (devices_loop os False rest acc' w)"
    if "sys w' = sys w" for acc' w'
    using Cons.IH [of w' acc'] Cons.prems that devices_loop_quiet_fst [OF that, of os rest acc']
    by simp
  show ?case
  proof (cases "manufacturer_of os (sys w) d")
    case (Inl e)
    then show ?thesis
      by (cases "is_OSError e")
         (simp_all add: devices_loop_skip_error [OF ao] devices_loop_raise [OF ao]
            devices_loop_skip_error [OF aq] devices_loop_raise [OF aq] move [OF s1])
  next
    case m: (Inr mf)
    show ?thesis
    proof (cases "mf = yubico_manufacturer")
      case False
      with m show ?thesis
        by (simp add: devices_loop_skip_other [OF ao] devices_loop_skip_other [OF aq] move [OF s1])
    next
      case True
      obtain r2 w2 where sp: "scan_parent os dbg d acc w1 = (r2, w2)"
        by (cases "scan_parent os dbg d acc w1")
      have s2: "sys w2 = sys w" using scan_parent_sys [OF sp] s1 by simp
      have "fst (scan_parent os dbg d acc w1) = fst (scan_parent os False d acc w)"
        using scan_parent_prints_ok [of os dbg w1 d acc] Cons.prems s1
          scan_parent_quiet_fst [OF s1, of os d acc]
        by simp
      then have q: "scan_parent os False d acc w = (r2, w)"
        using sp scan_parent_quiet_snd [of os d acc w]
        by (cases "scan_parent os False d acc w") simp
      show ?thesis
        using m True sp q move [OF s2]
        by (cases r2) (simp_all add: devices_loop_match [OF ao] devices_loop_match [OF aq])
    qed
  qed
qed

lemma devices_loop_only_printed: "only_printed w (snd (devices_loop os dbg devs acc w))"
proof (induction devs arbitrary: acc w)
  case Nil
  show ?case by (simp add: only_printed_refl)
next
  case (Cons d rest)
  obtain r1 w1 where ao1: "after_open os dbg d w = (r1, w1)"
    by (cases "after_open os dbg d w")
  have o1: "only_printed w w1" by (rule after_open_only_printed [OF ao1])
  have step: "only_printed w (snd (devices_loop os dbg rest acc' w'))"
    if "only_printed w w'" for acc' w'
    by (rule only_printed_trans [OF that Cons.IH])
  show ?case
  proof (cases r1)
    case (Inl e)
    with ao1 o1 show ?thesis by (simp add: devices_loop_print_raises)
  next
    case (Inr u)
    with ao1 have ao: "after_open os dbg d w = (Inr u, w1)" by simp
    show ?thesis
    proof (cases "manufacturer_of os (sys w) d")
      case (Inl e)
      then show ?thesis
        by (cases "is_OSError e")
           (simp_all add: devices_loop_skip_error [OF ao] devices_loop_raise [OF ao] step [OF o1] o1)
    next
      case m: (Inr mf)
      show ?thesis
      proof (cases "mf = yubico_manufacturer")
        case False
        with m show ?thesis by (simp add: devices_loop_skip_other [OF ao] step [OF o1])
      next
        case True
        obtain r2 w2 where sp: "scan_parent os dbg d acc w1 = (r2, w2)"
          by (cases "scan_parent os dbg d acc w1")
        have o2: "only_printed w w2"
          using only_printed_trans [OF o1 scan_parent_only_printed [of w1 os dbg d acc]] sp
          by simp
        show ?thesis
          using m True sp o2 step [OF o2]
          by (cases r2) (simp_all add: devices_loop_match [OF ao])
      qed
    qed
  qed
qed

section \<open>What the scan collects, and when it raises\<close>

lemma devices_loop_collect_quiet:
  "fst (devices_loop os False devs acc w) = Inr ys \<Longrightarrow>
   ys = acc @ concat (map (parent_handles os (sys w)) (filter (is_yubico os (sys w)) devs))"
proof (induction devs arbitrary: acc)
  case Nil
  then show ?case by simp
next
  case (Cons d rest)
  have aq: "after_open os False d w = (Inr (), w)" by simp
  show ?case
  proof (cases "manufacturer_of os (sys w) d")
    case (Inl e)
    then have ny: "\<not> is_yubico os (sys w) d" by (simp add: is_yubico_def)
    show ?thesis
    proof (cases "is_OSError e")
      case True
      with Inl Cons.prems have "fst (devices_loop os False rest acc w) = Inr ys"
        by (simp add: devices_loop_skip_error [OF aq])
      from Cons.IH [OF this] ny show ?thesis by simp
    next
      case False
      with Inl Cons.prems show ?thesis by (simp add: devices_loop_raise [OF aq])
    qed
  next
    case m: (Inr mf)
    show ?thesis
    proof (cases "mf = yubico_manufacturer")
      case False
      with m have ny: "\<not> is_yubico os (sys w) d" by (simp add: is_yubico_def)
      from m False Cons.prems have "fst (devices_loop os False rest acc w) = Inr ys"
        by (simp add: devices_loop_skip_other [OF aq])
      from Cons.IH [OF this] ny show ?thesis by simp
    next
      case True
      with m have y: "is_yubico os (sys w) d" by (simp add: is_yubico_def)
      obtain r where sp: "scan_parent os False d acc w = (r, w)"
        using scan_parent_quiet_snd [of os d acc w] by (cases "scan_parent os False d acc w") simp
      show ?thesis
      proof (cases r)
        case (Inl e)
        with m True sp Cons.prems show ?thesis by (simp add: devices_loop_match [OF aq])
      next
        case (Inr acc')
        with m True sp Cons.prems have rest: "fst (devices_loop os False rest acc' w) = Inr ys"
          by (simp add: devices_loop_match [OF aq])
        have "acc' = acc @ parent_handles os (sys w) d"
          using scan_parent_acc [of os d acc w acc'] sp Inr by simp
        with Cons.IH [OF rest] y show ?thesis by simp
      qed
    qed
  qed
qed

lemma devices_loop_collect:
  "fst (devices_loop os dbg devs acc w) = Inr ys \<Longrightarrow>
   ys = acc @ concat (map (parent_handles os (sys w)) (filter (is_yubico os (sys w)) devs))"
  by (rule devices_loop_collect_quiet [OF devices_loop_debug_Inr])

lemma scan_parent_product_fails:
  "os_read os (sys w) (os_path_join basepath [d, ''product'']) = Inl e \<Longrightarrow>
   fst (scan_parent os False d acc w) = Inl e"
  by (simp add: scan_parent_quiet)

lemma scan_parent_listing_fails:
  "os_read os (sys w) (os_path_join basepath [d, ''product'']) = Inr c \<Longrightarrow>
   os_listdir os (sys w) (os_path_join basepath [d]) = Inl e \<Longrightarrow>
   fst (scan_parent os False d acc w) = Inl e"
  by (simp add: scan_parent_quiet)

lemma scan_parent_fails:
  assumes "os_read os (sys w) (os_path_join basepath [d, ''product'']) = Inl e \<or>
           os_listdir os (sys w) (os_path_join basepath [d]) = Inl e"
  shows "\<exists>e'. fst (scan_parent os False d acc w) = Inl e'"
proof (cases "os_read os (sys w) (os_path_join basepath [d, ''product''])")
  case (Inl e1)
  then show ?thesis by (simp add: scan_parent_product_fails)
next
  case (Inr c)
  with assms show ?thesis by (simp add: scan_parent_listing_fails)
qed

lemma devices_loop_match_fails:
  assumes "is_yubico os (sys w) d" and "fst (scan_parent os False d acc w) = Inl e"
  shows "fst (devices_loop os False (d # rest) acc w) = Inl e"
proof -
  have aq: "after_open os False d w = (Inr (), w)" by simp
  obtain w2 where "scan_parent os False d acc w = (Inl e, w2)"
    using assms(2) by (cases "scan_parent os False d acc w") simp
  with assms(1) show ?thesis by (simp add: is_yubico_def devices_loop_match [OF aq])
qed

lemma devices_loop_fails_quiet:
  assumes "x \<in> set devs" and "is_yubico os (sys w) x"
    and "os_read os (sys w) (os_path_join basepath [x, ''product'']) = Inl e \<or>
         os_listdir os (sys w) (os_path_join basepath [x]) = Inl e"
  shows "\<exists>e'. fst (devices_loop os False devs acc w) = Inl e'"
  using assms(1)
proof (induction devs arbitrary: acc)
  case Nil
  then show ?case by simp
next
  case (Cons d rest)
  have aq: "after_open os False d w = (Inr (), w)" by simp
  show ?case
  proof (cases "x = d")
    case True
    from assms(3) obtain e' where "fst (scan_parent os False d acc w) = Inl e'"
      unfolding True [symmetric] using scan_parent_fails by blast
    from devices_loop_match_fails [OF _ this] assms(2) True show ?thesis by blast
  next
    case False
    with Cons.prems have mem: "x \<in> set rest" by simp
    note step = Cons.IH [OF mem]
    show ?thesis
    proof (cases "manufacturer_of os (sys w) d")
      case (Inl e1)
      then show ?thesis
        using step [of acc]
        by (cases "is_OSError e1")
           (simp_all add: devices_loop_skip_error [OF aq] devices_loop_raise [OF aq])
    next
      case m: (Inr mf)
      show ?thesis
      proof (cases "mf = yubico_manufacturer")
        case False
        with m show ?thesis using step [of acc] by (simp add: devices_loop_skip_other [OF aq])
      next
        case True
        obtain r2 where sp: "scan_parent os False d acc w = (r2, w)"
          using scan_parent_quiet_snd [of os d acc w]
          by (cases "scan_parent os False d acc w") simp
        show ?thesis
          using m True sp step
          by (cases r2) (simp_all add: devices_loop_match [OF aq])
      qed
    qed
  qed
qed

lemma devices_loop_fails:
  assumes "x \<in> set devs" and "is_yubico os (sys w) x"
    and "os_read os (sys w) (os_path_join basepath [x, ''product'']) = Inl e \<or>
         os_listdir os (sys w) (os_path_join basepath [x]) = Inl e"
  shows "\<exists>e'. fst (devices_loop os dbg devs acc w) = Inl e'"
proof (cases "fst (devices_loop os dbg devs acc w)")
  case (Inl e')
  then show ?thesis by blast
next
  case (Inr ys)
  from devices_loop_debug_Inr [OF this] devices_loop_fails_quiet [OF assms, of acc]
  show ?thesis by simp
qed

text \<open>The whole of \<open>get_yubikeys\<close>, from the loop.\<close>

lemma get_yubikeys_quiet:
  "get_yubikeys os False w =
     (case os_listdir os (sys w) basepath of
        Inl e \<Rightarrow> (Inl e, w)
      | Inr devs \<Rightarrow> devices_loop os False devs [] w)"
  by (simp add: get_yubikeys_def)

lemma get_yubikeys_raises_at_print:
  "debug_print os dbg (''Scanning '' @ basepath) w = (Inl e, w1) \<Longrightarrow>
   get_yubikeys os dbg w = (Inl e, w1)"
  unfolding get_yubikeys_def by (simp only: prod.case sum.case)

lemma get_yubikeys_after_print:
  "debug_print os dbg (''Scanning '' @ basepath) w = (Inr u, w1) \<Longrightarrow>
   get_yubikeys os dbg w =
     (case os_listdir os (sys w) basepath of
        Inl e \<Rightarrow> (Inl e, w1)
      | Inr devs \<Rightarrow> devices_loop os dbg devs [] w1)"
  using debug_print_sys [of os dbg "''Scanning '' @ basepath" w "Inr u" w1]
  unfolding get_yubikeys_def by (simp only: prod.case sum.case)

lemma get_yubikeys_debug_Inr:
  assumes "fst (get_yubikeys os dbg w) = Inr ys"
  shows "fst (get_yubikeys os False w) = Inr ys"
proof -
  obtain r1 w1 where p: "debug_print os dbg (''Scanning '' @ basepath) w = (r1, w1)"
    by (cases "debug_print os dbg (''Scanning '' @ basepath) w")
  have s1: "sys w1 = sys w" by (rule debug_print_sys [OF p])
  show ?thesis
  proof (cases r1)
    case (Inl e)
    with p assms show ?thesis by (simp add: get_yubikeys_raises_at_print)
  next
    case (Inr u)
    with p have p': "debug_print os dbg (''Scanning '' @ basepath) w = (Inr u, w1)" by simp
    show ?thesis
    proof (cases "os_listdir os (sys w) basepath")
      case (Inl e)
      with assms show ?thesis by (simp add: get_yubikeys_after_print [OF p'])
    next
      case devs: (Inr devs)
      with assms have "fst (devices_loop os dbg devs [] w1) = Inr ys"
        by (simp add: get_yubikeys_after_print [OF p'])
      from devices_loop_debug_Inr [OF this] have "fst (devices_loop os False devs [] w) = Inr ys"
        using devices_loop_quiet_fst [OF s1, of os devs "[]"] by simp
      with devs show ?thesis by (simp add: get_yubikeys_quiet)
    qed
  qed
qed

lemma get_yubikeys_prints_ok:
  assumes "prints_ok os dbg (sys w)"
  shows "fst (get_yubikeys os dbg w) = fst (get_yubikeys os False w)"
proof -
  obtain w1 where p: "debug_print os dbg (''Scanning '' @ basepath) w = (Inr (), w1)"
    using debug_print_ok [OF assms] by blast
  have s1: "sys w1 = sys w" by (rule debug_print_sys [OF p])
  show ?thesis
  proof (cases "os_listdir os (sys w) basepath")
    case (Inl e)
    then show ?thesis by (simp add: get_yubikeys_after_print [OF p] get_yubikeys_quiet)
  next
    case (Inr devs)
    have "fst (devices_loop os dbg devs [] w1) = fst (devices_loop os False devs [] w)"
      using devices_loop_prints_ok [of os dbg w1 devs "[]"] assms s1
        devices_loop_quiet_fst [OF s1, of os devs "[]"]
      by simp
    with Inr show ?thesis by (simp add: get_yubikeys_after_print [OF p] get_yubikeys_quiet)
  qed
qed

lemma get_yubikeys_only_printed: "only_printed w (snd (get_yubikeys os dbg w))"
proof -
  obtain r1 w1 where p: "debug_print os dbg (''Scanning '' @ basepath) w = (r1, w1)"
    by (cases "debug_print os dbg (''Scanning '' @ basepath) w")
  have o1: "only_printed w w1"
    using only_printed_debug_print [of w os dbg "''Scanning '' @ basepath"] p by simp
  show ?thesis
  proof (cases r1)
    case (Inl e)
    with p o1 show ?thesis by (simp add: get_yubikeys_raises_at_print)
  next
    case (Inr u)
    with p have p': "debug_print os dbg (''Scanning '' @ basepath) w = (Inr u, w1)" by simp
    show ?thesis
    proof (cases "os_listdir os (sys w) basepath")
      case (Inl e)
      with o1 show ?thesis by (simp add: get_yubikeys_after_print [OF p'])
    next
      case (Inr devs)
      then show ?thesis
        using only_printed_trans [OF o1 devices_loop_only_printed [of w1 os dbg devs "[]"]]
        by (simp add: get_yubikeys_after_print [OF p'])
    qed
  qed
qed

lemma get_yubikeys_quiet_snd: "snd (get_yubikeys os False w) = w"
  by (simp add: get_yubikeys_quiet devices_loop_quiet split: sum.splits)

section \<open>Running the program on the test double\<close>

lemmas sysfs_defs = sysfs_os_def sysfs_listdir_def sysfs_read_def sysfs_isdir_def
  sysfs_lstat_def sysfs_write_def

lemmas state_defs = one_key_def one_key_tree_def two_keys_def two_keys_refusing_def
  two_keys_tree_def unreadable_def unreadable_first_def bound_key_def denied_driver_def
  bound_refusing_def broken_parents_def no_tree_def

lemmas key_defs = key5_def otp0_def otp1_def key4_def

lemmas scan_defs = get_yubikeys_def devices_loop.simps scan_parent_def basepath_def
  os_path_join_def yubico_manufacturer_def py_strip_def py_isspace_def dev_id_chars_def
  YubiKey_def start_def debug_print_def print_def Let_def

lemma sys_start [simp]: "sys (start s) = s"
  by (simp add: start_def)

lemma print_sysfs: "print sysfs_os l w = (Inr (), w\<lparr>stdout := stdout w @ [l]\<rparr>)"
  by (simp add: print_def sysfs_os_def)

lemma prints_ok_sysfs: "prints_ok sysfs_os dbg s"
  by (simp add: prints_ok_def sysfs_os_def)

lemma get_yubikeys_one_key:
  "get_yubikeys sysfs_os False (start one_key) =
     (Inr [\<lparr>dev_id = ''1-2:1.0'', product = ''YubiKey 5''\<rparr>], start one_key)"
  by (simp add: scan_defs sysfs_defs one_key_def one_key_tree_def)

lemma get_yubikeys_two_keys:
  "get_yubikeys sysfs_os False (start two_keys) =
     (Inr [\<lparr>dev_id = ''1-2:1.0'', product = ''YubiKey OTP+FIDO+CCID''\<rparr>,
           \<lparr>dev_id = ''1-2:1.1'', product = ''YubiKey OTP+FIDO+CCID''\<rparr>], start two_keys)"
  by (simp add: scan_defs sysfs_defs two_keys_def two_keys_tree_def)

lemma get_yubikeys_two_keys_refusing:
  "get_yubikeys sysfs_os False (start two_keys_refusing) =
     (Inr [\<lparr>dev_id = ''1-2:1.0'', product = ''YubiKey OTP+FIDO+CCID''\<rparr>,
           \<lparr>dev_id = ''1-2:1.1'', product = ''YubiKey OTP+FIDO+CCID''\<rparr>],
      start two_keys_refusing)"
  by (simp add: scan_defs sysfs_defs two_keys_refusing_def two_keys_tree_def)

lemma get_yubikeys_unreadable:
  "get_yubikeys sysfs_os False (start unreadable) = (Inr [], start unreadable)"
  by (simp add: scan_defs sysfs_defs unreadable_def)

lemma str_nat_1: "str_nat (Suc 0) = ''1''"
  by code_simp

lemma lstat_one_key:
  "os_lstat sysfs_os one_key (os_path_join usbhid [dev_id key5]) = Inl FileNotFoundError"
  by (simp add: sysfs_defs state_defs key_defs os_path_join_def usbhid_def)

lemma lstat_bound_key:
  "os_lstat sysfs_os bound_key (os_path_join usbhid [dev_id key5]) =
     Inr \<lparr>st_mode = 0, st_size = 0\<rparr>"
  by (simp add: sysfs_defs state_defs key_defs os_path_join_def usbhid_def)

lemma lstat_denied_driver:
  "os_lstat sysfs_os denied_driver (os_path_join usbhid [dev_id key5]) = Inl PermissionError"
  by (simp add: sysfs_defs state_defs key_defs os_path_join_def usbhid_def)

lemma write_one_key:
  "os_write sysfs_os (sys (start one_key)) usbhid_bind (dev_id key5) = Inr one_key_after_bind"
  by (simp add: sysfs_defs one_key_after_bind_def key_defs os_path_join_def usbhid_def
      usbhid_bind_def one_key_def)

lemma write_bound_key:
  "os_write sysfs_os (sys (start bound_key)) usbhid_unbind (dev_id key5) =
     Inr bound_key_after_unbind"
  by (simp add: sysfs_defs bound_key_after_unbind_def key_defs os_path_join_def usbhid_def
      usbhid_bind_def usbhid_unbind_def bound_key_def one_key_tree_def)

lemma lstat_after_bind:
  "os_lstat sysfs_os one_key_after_bind (os_path_join usbhid [dev_id key5]) =
     Inr \<lparr>st_mode = 0, st_size = 0\<rparr>"
  by (simp add: sysfs_defs one_key_after_bind_def key_defs os_path_join_def usbhid_def)

lemma lstat_after_unbind:
  "os_lstat sysfs_os bound_key_after_unbind (os_path_join usbhid [dev_id key5]) =
     Inl FileNotFoundError"
  by (simp add: sysfs_defs bound_key_after_unbind_def one_key_tree_def key_defs os_path_join_def
      usbhid_def)

section \<open>The control operations\<close>

lemma is_active_world: "snd (is_active os y w) = w"
  by (simp add: is_active_def split: sum.splits)

text \<open>
  Claim C4. \<open>is_active\<close> returns \<open>True\<close> exactly when \<open>lstat\<close> finds an entry for the
  identifier under the driver's directory; \<open>FileNotFoundError\<close> gives \<open>False\<close> and not
  an error; every other exception of \<open>lstat\<close> (a \<open>PermissionError\<close>, say) leaves
  \<open>is_active\<close> as it is. The world is the same afterwards in each case.
\<close>

theorem is_active_spec:
  "(fst (is_active os y w) = Inr True \<longleftrightarrow>
      (\<exists>st. os_lstat os (sys w) (os_path_join usbhid [dev_id y]) = Inr st)) \<and>
   (os_lstat os (sys w) (os_path_join usbhid [dev_id y]) = Inl FileNotFoundError \<longrightarrow>
      is_active os y w = (Inr False, w)) \<and>
   (\<forall>e. os_lstat os (sys w) (os_path_join usbhid [dev_id y]) = Inl e \<and> e \<noteq> FileNotFoundError \<longrightarrow>
      is_active os y w = (Inl e, w))"
  by (auto simp: is_active_def split: sum.splits)

theorem is_active_spec_witness:
  "os_lstat sysfs_os (sys (start bound_key)) (os_path_join usbhid [dev_id key5]) =
     Inr \<lparr>st_mode = 0, st_size = 0\<rparr> \<and>
   fst (is_active sysfs_os key5 (start bound_key)) = Inr True \<and>
   os_lstat sysfs_os (sys (start one_key)) (os_path_join usbhid [dev_id key5]) =
     Inl FileNotFoundError \<and>
   is_active sysfs_os key5 (start one_key) = (Inr False, start one_key) \<and>
   os_lstat sysfs_os (sys (start denied_driver)) (os_path_join usbhid [dev_id key5]) =
     Inl PermissionError \<and>
   is_active sysfs_os key5 (start denied_driver) = (Inl PermissionError, start denied_driver)"
proof -
  have a: "os_lstat sysfs_os (sys (start bound_key)) (os_path_join usbhid [dev_id key5]) =
      Inr \<lparr>st_mode = 0, st_size = 0\<rparr>"
    by (simp add: lstat_bound_key)
  have b: "os_lstat sysfs_os (sys (start one_key)) (os_path_join usbhid [dev_id key5]) =
      Inl FileNotFoundError"
    by (simp add: lstat_one_key)
  have c: "os_lstat sysfs_os (sys (start denied_driver)) (os_path_join usbhid [dev_id key5]) =
      Inl PermissionError"
    by (simp add: lstat_denied_driver)
  from is_active_spec [of sysfs_os key5 "start bound_key"] a
  have a': "fst (is_active sysfs_os key5 (start bound_key)) = Inr True" by blast
  from is_active_spec [of sysfs_os key5 "start one_key"] b
  have b': "is_active sysfs_os key5 (start one_key) = (Inr False, start one_key)" by blast
  from is_active_spec [of sysfs_os key5 "start denied_driver"] c
  have c': "is_active sysfs_os key5 (start denied_driver) =
      (Inl PermissionError, start denied_driver)" by blast
  from a a' b b' c c' show ?thesis by (intro conjI)
qed

lemma is_active_one_key: "is_active sysfs_os key5 (start one_key) = (Inr False, start one_key)"
  by (simp add: is_active_def lstat_one_key)

lemma is_active_bound_key: "is_active sysfs_os key5 (start bound_key) = (Inr True, start bound_key)"
  by (simp add: is_active_def lstat_bound_key)

text \<open>
  Claim C1. \<open>activate\<close> on a key that \<open>is_active\<close> reports active returns \<open>False\<close> and
  leaves the world as it is: nothing is written. On a key reported inactive, when the
  write goes through, it returns \<open>True\<close>, and the one write it adds is that of the
  identifier to the \<open>bind\<close> file. \<open>deactivate\<close> is the mirror image, with the \<open>unbind\<close>
  file.
\<close>

theorem activate_deactivate_spec:
  "(fst (is_active os y w) = Inr True \<longrightarrow> activate os y w = (Inr False, w)) \<and>
   (fst (is_active os y w) = Inr False \<and> os_write os (sys w) usbhid_bind (dev_id y) = Inr s' \<longrightarrow>
      activate os y w =
        (Inr True, w\<lparr>sys := s', written := written w @ [(usbhid_bind, dev_id y)]\<rparr>)) \<and>
   (fst (is_active os y w) = Inr False \<longrightarrow> deactivate os y w = (Inr False, w)) \<and>
   (fst (is_active os y w) = Inr True \<and> os_write os (sys w) usbhid_unbind (dev_id y) = Inr s' \<longrightarrow>
      deactivate os y w =
        (Inr True, w\<lparr>sys := s', written := written w @ [(usbhid_unbind, dev_id y)]\<rparr>))"
  using is_active_world [of os y w]
  by (cases "is_active os y w") (auto simp: activate_def deactivate_def write_file_def)

theorem activate_deactivate_spec_witness:
  "activate sysfs_os key5 (start bound_key) = (Inr False, start bound_key) \<and>
   activate sysfs_os key5 (start one_key) =
     (Inr True, (start one_key)\<lparr>sys := one_key_after_bind,
        written := written (start one_key) @ [(usbhid_bind, dev_id key5)]\<rparr>) \<and>
   deactivate sysfs_os key5 (start one_key) = (Inr False, start one_key) \<and>
   deactivate sysfs_os key5 (start bound_key) =
     (Inr True, (start bound_key)\<lparr>sys := bound_key_after_unbind,
        written := written (start bound_key) @ [(usbhid_unbind, dev_id key5)]\<rparr>)"
proof -
  have off: "fst (is_active sysfs_os key5 (start one_key)) = Inr False"
    by (simp add: is_active_one_key)
  have on: "fst (is_active sysfs_os key5 (start bound_key)) = Inr True"
    by (simp add: is_active_bound_key)
  note spec_on = activate_deactivate_spec [of sysfs_os key5 "start bound_key" bound_key_after_unbind]
  note spec_off = activate_deactivate_spec [of sysfs_os key5 "start one_key" one_key_after_bind]
  from spec_on on have 1: "activate sysfs_os key5 (start bound_key) = (Inr False, start bound_key)"
    by blast
  from spec_off off write_one_key
  have 2: "activate sysfs_os key5 (start one_key) =
     (Inr True, (start one_key)\<lparr>sys := one_key_after_bind,
        written := written (start one_key) @ [(usbhid_bind, dev_id key5)]\<rparr>)"
    by blast
  from spec_off off have 3: "deactivate sysfs_os key5 (start one_key) = (Inr False, start one_key)"
    by blast
  from spec_on on write_bound_key
  have 4: "deactivate sysfs_os key5 (start bound_key) =
     (Inr True, (start bound_key)\<lparr>sys := bound_key_after_unbind,
        written := written (start bound_key) @ [(usbhid_unbind, dev_id key5)]\<rparr>)"
    by blast
  from 1 2 3 4 show ?thesis by (intro conjI)
qed

text \<open>
  Claim C8. Where the write of the identifier to \<open>bind\<close> makes the entry under the
  driver's directory, \<open>activate\<close> on an inactive key returns \<open>True\<close> and leaves it
  active, and a second \<open>activate\<close> returns \<open>False\<close> and changes nothing, so the key is
  still active. Where the write to \<open>unbind\<close> removes the entry, \<open>deactivate\<close> on an active
  key returns \<open>True\<close> and leaves it inactive, and a second one returns \<open>False\<close> and
  changes nothing.
\<close>

theorem activate_twice:
  "(fst (is_active os y w) = Inr False \<and>
    os_write os (sys w) usbhid_bind (dev_id y) = Inr s' \<and>
    os_lstat os s' (os_path_join usbhid [dev_id y]) = Inr st \<longrightarrow>
      (\<exists>w1. activate os y w = (Inr True, w1) \<and> fst (is_active os y w1) = Inr True \<and>
            activate os y w1 = (Inr False, w1))) \<and>
   (fst (is_active os y w) = Inr True \<and>
    os_write os (sys w) usbhid_unbind (dev_id y) = Inr s' \<and>
    os_lstat os s' (os_path_join usbhid [dev_id y]) = Inl FileNotFoundError \<longrightarrow>
      (\<exists>w1. deactivate os y w = (Inr True, w1) \<and> fst (is_active os y w1) = Inr False \<and>
            deactivate os y w1 = (Inr False, w1)))"
  using is_active_world [of os y w]
  by (cases "is_active os y w")
     (auto simp: activate_def deactivate_def write_file_def is_active_def)

theorem activate_twice_witness:
  "fst (is_active sysfs_os key5 (start one_key)) = Inr False \<and>
   (\<exists>w1. activate sysfs_os key5 (start one_key) = (Inr True, w1) \<and>
         fst (is_active sysfs_os key5 w1) = Inr True \<and>
         activate sysfs_os key5 w1 = (Inr False, w1)) \<and>
   fst (is_active sysfs_os key5 (start bound_key)) = Inr True \<and>
   (\<exists>w1. deactivate sysfs_os key5 (start bound_key) = (Inr True, w1) \<and>
         fst (is_active sysfs_os key5 w1) = Inr False \<and>
         deactivate sysfs_os key5 w1 = (Inr False, w1))"
proof -
  have off: "fst (is_active sysfs_os key5 (start one_key)) = Inr False"
    by (simp add: is_active_one_key)
  have on: "fst (is_active sysfs_os key5 (start bound_key)) = Inr True"
    by (simp add: is_active_bound_key)
  from activate_twice [of sysfs_os key5 "start one_key" one_key_after_bind
      "\<lparr>st_mode = 0, st_size = 0\<rparr>"] off write_one_key lstat_after_bind
  have 1: "\<exists>w1. activate sysfs_os key5 (start one_key) = (Inr True, w1) \<and>
         fst (is_active sysfs_os key5 w1) = Inr True \<and>
         activate sysfs_os key5 w1 = (Inr False, w1)"
    by blast
  from activate_twice [of sysfs_os key5 "start bound_key" bound_key_after_unbind]
    on write_bound_key lstat_after_unbind
  have 2: "\<exists>w1. deactivate sysfs_os key5 (start bound_key) = (Inr True, w1) \<and>
         fst (is_active sysfs_os key5 w1) = Inr False \<and>
         deactivate sysfs_os key5 w1 = (Inr False, w1)"
    by blast
  from off 1 on 2 show ?thesis by (intro conjI)
qed

section \<open>Discovery\<close>

text \<open>
  Claim C2. When \<open>get_yubikeys\<close> returns a list, the list is made of the handles of the
  entries whose manufacturer file could be read and holds exactly \<open>Yubico\n\<close>, in the
  order of the listing: an entry whose manufacturer file is absent, unreadable or
  different adds nothing, and every handle returned comes from an entry that matches.
\<close>

theorem get_yubikeys_only_yubico:
  assumes "os_listdir os (sys w) basepath = Inr devs"
    and "fst (get_yubikeys os dbg w) = Inr ys"
  shows "ys = concat (map (parent_handles os (sys w)) (filter (is_yubico os (sys w)) devs)) \<and>
    (\<forall>y \<in> set ys. \<exists>d \<in> set devs. is_yubico os (sys w) d \<and> y \<in> set (parent_handles os (sys w) d))"
proof -
  from get_yubikeys_debug_Inr [OF assms(2)] assms(1)
  have "fst (devices_loop os False devs [] w) = Inr ys"
    by (simp add: get_yubikeys_quiet)
  from devices_loop_collect_quiet [OF this]
  have eq: "ys = concat (map (parent_handles os (sys w)) (filter (is_yubico os (sys w)) devs))"
    by simp
  have "\<exists>d \<in> set devs. is_yubico os (sys w) d \<and> y \<in> set (parent_handles os (sys w) d)"
    if "y \<in> set ys" for y
    using that unfolding eq by auto
  with eq show ?thesis by blast
qed

lemma listdir_two_keys:
  "os_listdir sysfs_os (sys (start two_keys)) basepath = Inr [''usb1'', ''1-0:1.0'', ''1-2'']"
  by (simp add: sysfs_defs state_defs basepath_def)

lemma yubico_two_keys:
  "filter (is_yubico sysfs_os two_keys) [''usb1'', ''1-0:1.0'', ''1-2''] = [''1-2'']"
  by (simp add: is_yubico_def manufacturer_of_def sysfs_defs state_defs basepath_def
      os_path_join_def yubico_manufacturer_def)

theorem get_yubikeys_only_yubico_witness:
  "os_listdir sysfs_os (sys (start two_keys)) basepath = Inr [''usb1'', ''1-0:1.0'', ''1-2''] \<and>
   fst (get_yubikeys sysfs_os False (start two_keys)) = Inr [otp0, otp1] \<and>
   filter (is_yubico sysfs_os two_keys) [''usb1'', ''1-0:1.0'', ''1-2''] = [''1-2''] \<and>
   [otp0, otp1] = concat (map (parent_handles sysfs_os two_keys) [''1-2''])"
proof -
  have run: "fst (get_yubikeys sysfs_os False (start two_keys)) = Inr [otp0, otp1]"
    by (simp add: get_yubikeys_two_keys key_defs)
  from get_yubikeys_only_yubico [OF listdir_two_keys run, THEN conjunct1]
  have "[otp0, otp1] = concat (map (parent_handles sysfs_os two_keys) [''1-2''])"
    by (simp only: sys_start yubico_two_keys)
  with listdir_two_keys run yubico_two_keys show ?thesis by (intro conjI)
qed

lemma parent_handles_eq:
  assumes "os_read os s (os_path_join basepath [d, ''product'']) = Inr content"
    and "os_listdir os s (os_path_join basepath [d]) = Inr subdevs"
  shows "parent_handles os s d =
     map (\<lambda>subdev. \<lparr>dev_id = subdev, product = py_strip (product_of os s d)\<rparr>)
       (filter (\<lambda>subdev. os_isdir os s (os_path_join basepath [d, subdev]) \<and>
                  set subdev \<subseteq> set ''0123456789-:.'') (subdevs_of os s d))"
  using assms
  by (simp add: parent_handles_def scan_parent_quiet start_def subdev_loop_eq product_of_def
      subdevs_of_def good_subdev_def [abs_def] YubiKey_def dev_id_chars_def)

text \<open>
  Claim C3. When \<open>get_yubikeys\<close> returns a list, the product file and the directory of
  every entry of the vendor could be read, and the list is, parent by parent in the order
  of the root's listing, one handle for each sub-entry of the parent that is a directory
  and whose name has only characters of \<open>0123456789-:.\<close>, in the order of the parent's
  listing, with the sub-entry's name as \<open>dev_id\<close> and the stripped content of the
  parent's product file as \<open>product\<close>; every other sub-entry is left out.
\<close>

theorem get_yubikeys_handles:
  assumes "os_listdir os (sys w) basepath = Inr devs"
    and "fst (get_yubikeys os dbg w) = Inr ys"
  shows "(\<forall>d \<in> set devs. is_yubico os (sys w) d \<longrightarrow>
            (\<exists>content subdevs.
               os_read os (sys w) (os_path_join basepath [d, ''product'']) = Inr content \<and>
               os_listdir os (sys w) (os_path_join basepath [d]) = Inr subdevs)) \<and>
    ys = concat (map
      (\<lambda>d. map (\<lambda>subdev. \<lparr>dev_id = subdev, product = py_strip (product_of os (sys w) d)\<rparr>)
             (filter (\<lambda>subdev. os_isdir os (sys w) (os_path_join basepath [d, subdev]) \<and>
                        set subdev \<subseteq> set ''0123456789-:.'')
                (subdevs_of os (sys w) d)))
      (filter (is_yubico os (sys w)) devs))"
proof -
  from get_yubikeys_debug_Inr [OF assms(2)] assms(1)
  have run: "fst (devices_loop os False devs [] w) = Inr ys"
    by (simp add: get_yubikeys_quiet)
  have reads: "\<exists>content subdevs.
      os_read os (sys w) (os_path_join basepath [d, ''product'']) = Inr content \<and>
      os_listdir os (sys w) (os_path_join basepath [d]) = Inr subdevs"
    if d: "d \<in> set devs" "is_yubico os (sys w) d" for d
  proof (rule ccontr)
    assume "\<not> ?thesis"
    then obtain e where
      "os_read os (sys w) (os_path_join basepath [d, ''product'']) = Inl e \<or>
       os_listdir os (sys w) (os_path_join basepath [d]) = Inl e"
      by (cases "os_read os (sys w) (os_path_join basepath [d, ''product''])";
          cases "os_listdir os (sys w) (os_path_join basepath [d])") auto
    from devices_loop_fails_quiet [OF d this, of "[]"] run show False by simp
  qed
  from devices_loop_collect_quiet [OF run]
  have "ys = concat (map (parent_handles os (sys w)) (filter (is_yubico os (sys w)) devs))"
    by simp
  also have "map (parent_handles os (sys w)) (filter (is_yubico os (sys w)) devs) =
    map (\<lambda>d. map (\<lambda>subdev. \<lparr>dev_id = subdev, product = py_strip (product_of os (sys w) d)\<rparr>)
             (filter (\<lambda>subdev. os_isdir os (sys w) (os_path_join basepath [d, subdev]) \<and>
                        set subdev \<subseteq> set ''0123456789-:.'')
                (subdevs_of os (sys w) d)))
      (filter (is_yubico os (sys w)) devs)"
  proof (rule map_cong [OF refl])
    fix d assume "d \<in> set (filter (is_yubico os (sys w)) devs)"
    then have "d \<in> set devs" "is_yubico os (sys w) d" by simp_all
    from reads [OF this] obtain content subdevs where
      "os_read os (sys w) (os_path_join basepath [d, ''product'']) = Inr content"
      "os_listdir os (sys w) (os_path_join basepath [d]) = Inr subdevs"
      by blast
    then show "parent_handles os (sys w) d =
      map (\<lambda>subdev. \<lparr>dev_id = subdev, product = py_strip (product_of os (sys w) d)\<rparr>)
        (filter (\<lambda>subdev. os_isdir os (sys w) (os_path_join basepath [d, subdev]) \<and>
                   set subdev \<subseteq> set ''0123456789-:.'')
           (subdevs_of os (sys w) d))"
      by (rule parent_handles_eq)
  qed
  finally show ?thesis using reads by blast
qed

lemma run_two_keys_debug:
  "fst (get_yubikeys sysfs_os True (start two_keys)) = Inr [otp0, otp1]"
  using get_yubikeys_prints_ok [OF prints_ok_sysfs, of True "start two_keys"]
  by (simp add: get_yubikeys_two_keys key_defs)

lemma handles_two_keys:
  "concat (map
      (\<lambda>d. map (\<lambda>subdev. \<lparr>dev_id = subdev, product = py_strip (product_of sysfs_os two_keys d)\<rparr>)
             (filter (\<lambda>subdev. os_isdir sysfs_os two_keys (os_path_join basepath [d, subdev]) \<and>
                        set subdev \<subseteq> set ''0123456789-:.'')
                (subdevs_of sysfs_os two_keys d)))
      [''1-2'']) = [otp0, otp1]"
  by (simp add: product_of_def subdevs_of_def sysfs_defs state_defs basepath_def os_path_join_def
      py_strip_def py_isspace_def key_defs)

theorem get_yubikeys_handles_witness:
  "os_listdir sysfs_os (sys (start two_keys)) basepath = Inr [''usb1'', ''1-0:1.0'', ''1-2''] \<and>
   fst (get_yubikeys sysfs_os True (start two_keys)) = Inr [otp0, otp1] \<and>
   filter (is_yubico sysfs_os two_keys) [''usb1'', ''1-0:1.0'', ''1-2''] = [''1-2''] \<and>
   (\<exists>content subdevs.
      os_read sysfs_os two_keys (os_path_join basepath [''1-2'', ''product'']) = Inr content \<and>
      os_listdir sysfs_os two_keys (os_path_join basepath [''1-2'']) = Inr subdevs) \<and>
   [otp0, otp1] = concat (map
      (\<lambda>d. map (\<lambda>subdev. \<lparr>dev_id = subdev, product = py_strip (product_of sysfs_os two_keys d)\<rparr>)
             (filter (\<lambda>subdev. os_isdir sysfs_os two_keys (os_path_join basepath [d, subdev]) \<and>
                        set subdev \<subseteq> set ''0123456789-:.'')
                (subdevs_of sysfs_os two_keys d)))
      [''1-2''])"
proof -
  note inst = get_yubikeys_handles [OF listdir_two_keys run_two_keys_debug]
  have y: "is_yubico sysfs_os two_keys ''1-2''"
    by (simp add: is_yubico_def manufacturer_of_def sysfs_defs state_defs basepath_def
        os_path_join_def yubico_manufacturer_def)
  from inst [THEN conjunct1] y
  have reads: "\<exists>content subdevs.
      os_read sysfs_os two_keys (os_path_join basepath [''1-2'', ''product'']) = Inr content \<and>
      os_listdir sysfs_os two_keys (os_path_join basepath [''1-2'']) = Inr subdevs"
    by simp
  from inst [THEN conjunct2]
  have eq: "[otp0, otp1] = concat (map
      (\<lambda>d. map (\<lambda>subdev. \<lparr>dev_id = subdev, product = py_strip (product_of sysfs_os two_keys d)\<rparr>)
             (filter (\<lambda>subdev. os_isdir sysfs_os two_keys (os_path_join basepath [d, subdev]) \<and>
                        set subdev \<subseteq> set ''0123456789-:.'')
                (subdevs_of sysfs_os two_keys d)))
      [''1-2''])"
    by (simp only: sys_start yubico_two_keys)
  from listdir_two_keys run_two_keys_debug yubico_two_keys reads eq show ?thesis
    by (intro conjI)
qed

text \<open>
  Claim C10 does not hold of the code: the diagnostic prints stand outside every \<open>try\<close>,
  and \<open>print\<close> can raise. With a standard output that is closed, the scan of the single
  key raises with the debug flag set and returns the handle with the flag unset.
\<close>

theorem closed_stdout_changes_result:
  "fst (get_yubikeys closed_stdout_os True (start one_key)) = Inl OtherOSError \<and>
   fst (get_yubikeys closed_stdout_os False (start one_key)) = Inr [key5]"
  by (simp add: scan_defs closed_stdout_os_def sysfs_defs one_key_def one_key_tree_def key_defs)

text \<open>
  Claim C10, amended. With a standard output that takes every line, \<open>get_yubikeys\<close>
  returns the same result (the same handles, or the same exception) with the debug flag
  set and unset. Whatever the output does, a run with the flag set that returns handles
  returns those of the run with the flag unset: the flag never changes the handles, it
  can only end the scan with the exception of a print. Unset, the flag leaves the world
  as it is; set, it only adds printed lines.
\<close>

theorem debug_flag_only_prints:
  "((\<forall>line. os_print os (sys w) line = None) \<longrightarrow>
      fst (get_yubikeys os True w) = fst (get_yubikeys os False w)) \<and>
   (\<forall>ys. fst (get_yubikeys os True w) = Inr ys \<longrightarrow> fst (get_yubikeys os False w) = Inr ys) \<and>
   snd (get_yubikeys os False w) = w \<and>
   (\<exists>lines. snd (get_yubikeys os True w) = w\<lparr>stdout := stdout w @ lines\<rparr>)"
proof (intro conjI impI allI)
  assume "\<forall>line. os_print os (sys w) line = None"
  then have "prints_ok os True (sys w)" by (simp add: prints_ok_def)
  then show "fst (get_yubikeys os True w) = fst (get_yubikeys os False w)"
    by (rule get_yubikeys_prints_ok)
next
  fix ys assume "fst (get_yubikeys os True w) = Inr ys"
  then show "fst (get_yubikeys os False w) = Inr ys" by (rule get_yubikeys_debug_Inr)
next
  show "snd (get_yubikeys os False w) = w" by (rule get_yubikeys_quiet_snd)
next
  have "only_printed w (snd (get_yubikeys os True w))" by (rule get_yubikeys_only_printed)
  then show "\<exists>lines. snd (get_yubikeys os True w) = w\<lparr>stdout := stdout w @ lines\<rparr>"
    by (simp add: only_printed_def)
qed

theorem debug_flag_only_prints_witness:
  "(\<forall>line. os_print sysfs_os (sys (start two_keys)) line = None) \<and>
   fst (get_yubikeys sysfs_os True (start two_keys)) =
     fst (get_yubikeys sysfs_os False (start two_keys)) \<and>
   fst (get_yubikeys sysfs_os True (start two_keys)) = Inr [otp0, otp1] \<and>
   fst (get_yubikeys sysfs_os False (start two_keys)) = Inr [otp0, otp1]"
proof -
  have out: "\<forall>line. os_print sysfs_os (sys (start two_keys)) line = None"
    by (simp add: sysfs_os_def)
  note inst = debug_flag_only_prints [of sysfs_os "start two_keys"]
  from inst out
  have same: "fst (get_yubikeys sysfs_os True (start two_keys)) =
      fst (get_yubikeys sysfs_os False (start two_keys))"
    by blast
  have quiet: "fst (get_yubikeys sysfs_os False (start two_keys)) = Inr [otp0, otp1]"
    by (simp add: get_yubikeys_two_keys key_defs)
  from same quiet have loud: "fst (get_yubikeys sysfs_os True (start two_keys)) = Inr [otp0, otp1]"
    by simp
  from out same loud quiet show ?thesis by (intro conjI)
qed

text \<open>
  Claim C5 does not hold of the code: \<open>except (OSError, IOError)\<close> catches a
  \<open>PermissionError\<close> as well. On a tree whose only manufacturer file raises it, the scan
  raises nothing and returns the empty list.
\<close>

theorem permission_error_is_skipped:
  "manufacturer_of sysfs_os unreadable ''1-2'' = Inl PermissionError \<and>
   get_yubikeys sysfs_os False (start unreadable) = (Inr [], start unreadable)"
  by (simp add: get_yubikeys_unreadable)
     (simp add: manufacturer_of_def sysfs_defs unreadable_def basepath_def os_path_join_def)

text \<open>
  Claim C5, amended. When the manufacturer file of an entry raises a \<open>PermissionError\<close>,
  or any other \<open>OSError\<close>, the entry is passed over and the scan goes on with the entries
  that follow, as it does for a file that is not found: where no diagnostic print can
  raise, the outcome is that of the scan of the entries that follow.
\<close>

theorem manufacturer_error_skipped:
  "(prints_ok os dbg (sys w) \<and> manufacturer_of os (sys w) d = Inl e \<and> is_OSError e \<longrightarrow>
      fst (devices_loop os dbg (d # rest) yubikeys w) =
      fst (devices_loop os dbg rest yubikeys w)) \<and>
   (prints_ok os dbg (sys w) \<and> manufacturer_of os (sys w) d = Inl e \<and> is_OSError e \<and>
    os_listdir os (sys w) basepath = Inr (d # rest) \<longrightarrow>
      fst (get_yubikeys os dbg w) = fst (devices_loop os dbg rest [] w))"
proof -
  have aq: "after_open os False d w = (Inr (), w)" by simp
  have loop: "fst (devices_loop os dbg (d # rest) acc w) = fst (devices_loop os dbg rest acc w)"
    if "prints_ok os dbg (sys w)" "manufacturer_of os (sys w) d = Inl e" "is_OSError e"
    for acc :: "yubikey list"
    using that
    by (simp add: devices_loop_prints_ok devices_loop_skip_error [OF aq])
  have scan: "fst (get_yubikeys os dbg w) = fst (devices_loop os dbg (d # rest) [] w)"
    if "prints_ok os dbg (sys w)" "os_listdir os (sys w) basepath = Inr (d # rest)"
    using that by (simp add: get_yubikeys_prints_ok devices_loop_prints_ok get_yubikeys_quiet)
  show ?thesis
    using loop [of yubikeys] loop [of "[]"] scan by auto
qed

lemma manufacturer_unreadable:
  "manufacturer_of sysfs_os (sys (start unreadable_first)) ''1-1'' = Inl PermissionError"
  by (simp add: manufacturer_of_def sysfs_defs unreadable_first_def basepath_def os_path_join_def)

lemma listdir_unreadable:
  "os_listdir sysfs_os (sys (start unreadable_first)) basepath = Inr [''1-1'', ''1-2'']"
  by (simp add: sysfs_defs unreadable_first_def basepath_def)

lemma rest_unreadable:
  "fst (devices_loop sysfs_os True [''1-2''] acc (start unreadable_first)) = Inr (acc @ [key5])"
  by (simp add: scan_defs sysfs_defs unreadable_first_def key_defs subdev_loop_eq
      good_subdev_def)

theorem manufacturer_error_skipped_witness:
  "prints_ok sysfs_os True (sys (start unreadable_first)) \<and>
   manufacturer_of sysfs_os (sys (start unreadable_first)) ''1-1'' = Inl PermissionError \<and>
   is_OSError PermissionError \<and>
   os_listdir sysfs_os (sys (start unreadable_first)) basepath = Inr [''1-1'', ''1-2''] \<and>
   fst (devices_loop sysfs_os True [''1-1'', ''1-2''] [key4] (start unreadable_first)) =
     fst (devices_loop sysfs_os True [''1-2''] [key4] (start unreadable_first)) \<and>
   fst (devices_loop sysfs_os True [''1-1'', ''1-2''] [key4] (start unreadable_first)) =
     Inr [key4, key5] \<and>
   fst (get_yubikeys sysfs_os True (start unreadable_first)) =
     fst (devices_loop sysfs_os True [''1-2''] [] (start unreadable_first)) \<and>
   fst (get_yubikeys sysfs_os True (start unreadable_first)) = Inr [key5]"
proof -
  have os_error: "is_OSError PermissionError" by simp
  have out: "prints_ok sysfs_os True (sys (start unreadable_first))" by (rule prints_ok_sysfs)
  note skipped = manufacturer_error_skipped [of sysfs_os True "start unreadable_first" "''1-1''"
      PermissionError "[''1-2'']"]
  from skipped [of "[key4]"] out manufacturer_unreadable os_error
  have 1: "fst (devices_loop sysfs_os True [''1-1'', ''1-2''] [key4] (start unreadable_first)) =
      fst (devices_loop sysfs_os True [''1-2''] [key4] (start unreadable_first))"
    by blast
  from 1 have 2: "fst (devices_loop sysfs_os True [''1-1'', ''1-2''] [key4] (start unreadable_first)) =
      Inr [key4, key5]"
    by (simp add: rest_unreadable)
  from skipped [of "[]"] out manufacturer_unreadable os_error listdir_unreadable
  have 3: "fst (get_yubikeys sysfs_os True (start unreadable_first)) =
      fst (devices_loop sysfs_os True [''1-2''] [] (start unreadable_first))"
    by blast
  from 3 have 4: "fst (get_yubikeys sysfs_os True (start unreadable_first)) = Inr [key5]"
    by (simp add: rest_unreadable)
  from out manufacturer_unreadable os_error listdir_unreadable 1 2 3 4 show ?thesis
    by (intro conjI)
qed

text \<open>
  Claim C7. For an entry \<open>d\<close> of the vendor, an exception of reading its product file, or
  of listing its directory, makes the loop that reaches \<open>d\<close> end with an exception,
  whatever handles were collected before: no list is returned. So \<open>get_yubikeys\<close> returns
  no list when such an entry is in the listing, nor when the listing of the root itself
  raises. Where no diagnostic print can raise first, the exception the loop ends with is
  the one of the read or of the listing.
\<close>

theorem discovery_failure_is_fatal:
  "(prints_ok os dbg (sys w) \<and> is_yubico os (sys w) d \<and>
    os_read os (sys w) (os_path_join basepath [d, ''product'']) = Inl e \<longrightarrow>
      fst (devices_loop os dbg (d # rest) yubikeys w) = Inl e) \<and>
   (prints_ok os dbg (sys w) \<and> is_yubico os (sys w) d \<and>
    os_read os (sys w) (os_path_join basepath [d, ''product'']) = Inr c \<and>
    os_listdir os (sys w) (os_path_join basepath [d]) = Inl e \<longrightarrow>
      fst (devices_loop os dbg (d # rest) yubikeys w) = Inl e) \<and>
   (is_yubico os (sys w) d \<and>
    (os_read os (sys w) (os_path_join basepath [d, ''product'']) = Inl e \<or>
     os_listdir os (sys w) (os_path_join basepath [d]) = Inl e) \<longrightarrow>
      (\<exists>e'. fst (devices_loop os dbg (d # rest) yubikeys w) = Inl e')) \<and>
   (os_listdir os (sys w) basepath = Inr devs \<and> d \<in> set devs \<and> is_yubico os (sys w) d \<and>
    (os_read os (sys w) (os_path_join basepath [d, ''product'']) = Inl e \<or>
     os_listdir os (sys w) (os_path_join basepath [d]) = Inl e) \<longrightarrow>
      (\<exists>e'. fst (get_yubikeys os dbg w) = Inl e')) \<and>
   (prints_ok os dbg (sys w) \<and> os_listdir os (sys w) basepath = Inl e \<longrightarrow>
      fst (get_yubikeys os dbg w) = Inl e) \<and>
   (os_listdir os (sys w) basepath = Inl e \<longrightarrow> (\<exists>e'. fst (get_yubikeys os dbg w) = Inl e'))"
proof (intro conjI impI)
  assume "prints_ok os dbg (sys w) \<and> is_yubico os (sys w) d \<and>
    os_read os (sys w) (os_path_join basepath [d, ''product'']) = Inl e"
  then show "fst (devices_loop os dbg (d # rest) yubikeys w) = Inl e"
    by (simp add: devices_loop_prints_ok devices_loop_match_fails scan_parent_product_fails)
next
  assume "prints_ok os dbg (sys w) \<and> is_yubico os (sys w) d \<and>
    os_read os (sys w) (os_path_join basepath [d, ''product'']) = Inr c \<and>
    os_listdir os (sys w) (os_path_join basepath [d]) = Inl e"
  then show "fst (devices_loop os dbg (d # rest) yubikeys w) = Inl e"
    by (simp add: devices_loop_prints_ok devices_loop_match_fails
        scan_parent_listing_fails [where c = c])
next
  assume "is_yubico os (sys w) d \<and>
    (os_read os (sys w) (os_path_join basepath [d, ''product'']) = Inl e \<or>
     os_listdir os (sys w) (os_path_join basepath [d]) = Inl e)"
  then show "\<exists>e'. fst (devices_loop os dbg (d # rest) yubikeys w) = Inl e'"
    by (intro devices_loop_fails [where x = d and e = e]) simp_all
next
  assume a: "os_listdir os (sys w) basepath = Inr devs \<and> d \<in> set devs \<and> is_yubico os (sys w) d \<and>
    (os_read os (sys w) (os_path_join basepath [d, ''product'']) = Inl e \<or>
     os_listdir os (sys w) (os_path_join basepath [d]) = Inl e)"
  then have "\<exists>e'. fst (devices_loop os False devs [] w) = Inl e'"
    by (intro devices_loop_fails_quiet [where x = d and e = e]) simp_all
  with a have quiet: "\<exists>e'. fst (get_yubikeys os False w) = Inl e'"
    by (simp add: get_yubikeys_quiet)
  show "\<exists>e'. fst (get_yubikeys os dbg w) = Inl e'"
  proof (cases "fst (get_yubikeys os dbg w)")
    case (Inl e')
    then show ?thesis by blast
  next
    case (Inr ys)
    from get_yubikeys_debug_Inr [OF this] quiet show ?thesis by simp
  qed
next
  assume "prints_ok os dbg (sys w) \<and> os_listdir os (sys w) basepath = Inl e"
  then show "fst (get_yubikeys os dbg w) = Inl e"
    by (simp add: get_yubikeys_prints_ok get_yubikeys_quiet)
next
  assume a: "os_listdir os (sys w) basepath = Inl e"
  show "\<exists>e'. fst (get_yubikeys os dbg w) = Inl e'"
  proof (cases "fst (get_yubikeys os dbg w)")
    case (Inl e')
    then show ?thesis by blast
  next
    case (Inr ys)
    from get_yubikeys_debug_Inr [OF this] a show ?thesis by (simp add: get_yubikeys_quiet)
  qed
qed

lemma yubico_broken:
  "is_yubico sysfs_os (sys (start broken_parents)) ''1-2''"
  "is_yubico sysfs_os (sys (start broken_parents)) ''1-3''"
  by (simp_all add: is_yubico_def manufacturer_of_def sysfs_defs state_defs basepath_def
      os_path_join_def yubico_manufacturer_def)

lemma product_broken:
  "os_read sysfs_os (sys (start broken_parents)) (os_path_join basepath [''1-2'', ''product'']) =
     Inl FileNotFoundError"
  "os_read sysfs_os (sys (start broken_parents)) (os_path_join basepath [''1-3'', ''product'']) =
     Inr ''YubiKey 5\<newline>''"
  by (simp_all add: sysfs_defs state_defs basepath_def os_path_join_def)

lemma listdir_broken:
  "os_listdir sysfs_os (sys (start broken_parents)) (os_path_join basepath [''1-3'']) =
     Inl PermissionError"
  "os_listdir sysfs_os (sys (start broken_parents)) basepath = Inr [''1-1'', ''1-2'', ''1-3'']"
  by (simp_all add: sysfs_defs state_defs basepath_def os_path_join_def)

lemma listdir_no_tree:
  "os_listdir sysfs_os (sys (start no_tree)) basepath = Inl FileNotFoundError"
  by (simp add: sysfs_defs state_defs)

lemma closed_stdout_broken:
  "is_yubico closed_stdout_os (sys (start broken_parents)) ''1-2''"
  "os_read closed_stdout_os (sys (start broken_parents))
     (os_path_join basepath [''1-2'', ''product'']) = Inl FileNotFoundError"
  by (simp_all add: is_yubico_def manufacturer_of_def closed_stdout_os_def sysfs_defs state_defs
      basepath_def os_path_join_def yubico_manufacturer_def)

lemma closed_stdout_no_tree:
  "os_listdir closed_stdout_os (sys (start no_tree)) basepath = Inl FileNotFoundError"
  by (simp add: closed_stdout_os_def sysfs_defs state_defs)

theorem discovery_failure_is_fatal_witness:
  "fst (devices_loop sysfs_os False [''1-2'', ''1-3''] [key4] (start broken_parents)) =
     Inl FileNotFoundError \<and>
   fst (devices_loop sysfs_os False [''1-3''] [key4] (start broken_parents)) =
     Inl PermissionError \<and>
   (\<exists>e'. fst (get_yubikeys sysfs_os False (start broken_parents)) = Inl e') \<and>
   fst (get_yubikeys sysfs_os False (start no_tree)) = Inl FileNotFoundError \<and>
   fst (devices_loop sysfs_os True [''1-2'', ''1-3''] [key4] (start broken_parents)) =
     Inl FileNotFoundError \<and>
   (\<exists>e'. fst (devices_loop closed_stdout_os True [''1-2'', ''1-3''] [key4]
            (start broken_parents)) = Inl e') \<and>
   (\<exists>e'. fst (get_yubikeys closed_stdout_os True (start no_tree)) = Inl e')"
proof -
  have out: "prints_ok sysfs_os False s" for s by (rule prints_ok_sysfs)
  from discovery_failure_is_fatal [of sysfs_os False "start broken_parents" "''1-2''"
      FileNotFoundError "[''1-3'']" "[key4]"] out yubico_broken(1) product_broken(1)
  have 1: "fst (devices_loop sysfs_os False [''1-2'', ''1-3''] [key4] (start broken_parents)) =
      Inl FileNotFoundError"
    by blast
  from discovery_failure_is_fatal [of sysfs_os False "start broken_parents" "''1-3''"
      PermissionError "[]" "[key4]" "''YubiKey 5\<newline>''"]
    out yubico_broken(2) product_broken(2) listdir_broken(1)
  have 2: "fst (devices_loop sysfs_os False [''1-3''] [key4] (start broken_parents)) =
      Inl PermissionError"
    by blast
  have mem: "''1-2'' \<in> set [''1-1'', ''1-2'', ''1-3'']" by simp
  from discovery_failure_is_fatal [of sysfs_os False "start broken_parents" "''1-2''"
      FileNotFoundError _ _ _ "[''1-1'', ''1-2'', ''1-3'']"]
    yubico_broken(1) product_broken(1) listdir_broken(2) mem
  have 3: "\<exists>e'. fst (get_yubikeys sysfs_os False (start broken_parents)) = Inl e'"
    by blast
  from discovery_failure_is_fatal [of sysfs_os False "start no_tree" _ FileNotFoundError]
    out listdir_no_tree
  have 4: "fst (get_yubikeys sysfs_os False (start no_tree)) = Inl FileNotFoundError"
    by blast
  from discovery_failure_is_fatal [of sysfs_os True "start broken_parents" "''1-2''"
      FileNotFoundError "[''1-3'']" "[key4]"]
    prints_ok_sysfs [of True] yubico_broken(1) product_broken(1)
  have 5: "fst (devices_loop sysfs_os True [''1-2'', ''1-3''] [key4] (start broken_parents)) =
      Inl FileNotFoundError"
    by blast
  from discovery_failure_is_fatal [of closed_stdout_os True "start broken_parents" "''1-2''"
      FileNotFoundError "[''1-3'']" "[key4]"] closed_stdout_broken
  have 6: "\<exists>e'. fst (devices_loop closed_stdout_os True [''1-2'', ''1-3''] [key4]
      (start broken_parents)) = Inl e'"
    by blast
  from discovery_failure_is_fatal [of closed_stdout_os True "start no_tree" _ FileNotFoundError]
    closed_stdout_no_tree
  have 7: "\<exists>e'. fst (get_yubikeys closed_stdout_os True (start no_tree)) = Inl e'"
    by blast
  from 1 2 3 4 5 6 7 show ?thesis by (intro conjI)
qed

section \<open>The commands of main\<close>

lemma on_loop_append:
  "on_loop os (pre @ post) w =
     (case on_loop os pre w of (Inl e, w') \<Rightarrow> (Inl e, w') | (Inr u, w') \<Rightarrow> on_loop os post w')"
  by (induction pre arbitrary: w) (simp_all split: prod.splits sum.splits)

lemma off_loop_append:
  "off_loop os (pre @ post) w =
     (case off_loop os pre w of (Inl e, w') \<Rightarrow> (Inl e, w') | (Inr u, w') \<Rightarrow> off_loop os post w')"
  by (induction pre arbitrary: w) (simp_all split: prod.splits sum.splits)

lemma activate_write_fails:
  "fst (is_active os y w) = Inr False \<Longrightarrow> os_write os (sys w) usbhid_bind (dev_id y) = Inl e \<Longrightarrow>
   activate os y w = (Inl e, w)"
  using is_active_world [of os y w]
  by (cases "is_active os y w") (simp add: activate_def write_file_def)

lemma deactivate_write_fails:
  "fst (is_active os y w) = Inr True \<Longrightarrow> os_write os (sys w) usbhid_unbind (dev_id y) = Inl e \<Longrightarrow>
   deactivate os y w = (Inl e, w)"
  using is_active_world [of os y w]
  by (cases "is_active os y w") (simp add: deactivate_def write_file_def)

lemma is_active_refusing:
  "is_active sysfs_os otp0 (start two_keys_refusing) = (Inr False, start two_keys_refusing)"
  by (simp add: is_active_def sysfs_defs state_defs key_defs os_path_join_def usbhid_def)

lemma write_refusing:
  "os_write sysfs_os (sys (start two_keys_refusing)) usbhid_bind (dev_id otp0) = Inl OtherOSError"
  by (simp add: sysfs_defs state_defs key_defs)

lemma activate_refusing:
  "activate sysfs_os otp0 (start two_keys_refusing) = (Inl OtherOSError, start two_keys_refusing)"
  by (simp add: activate_def is_active_refusing write_file_def write_refusing [simplified])

lemma activate_second:
  "fst (activate sysfs_os otp1 (start two_keys_refusing)) = Inr True"
  by (simp add: activate_def is_active_def write_file_def sysfs_defs state_defs key_defs
      os_path_join_def usbhid_def usbhid_bind_def)

lemma euid_refusing: "os_geteuid sysfs_os (sys (start two_keys_refusing)) = 0"
  by (simp add: sysfs_defs state_defs)

lemma scan_refusing:
  "get_yubikeys sysfs_os False (start two_keys_refusing) =
     (Inr ([] @ otp0 # [otp1]), start two_keys_refusing)"
  by (simp add: get_yubikeys_two_keys_refusing key_defs)

text \<open>
  Claim C6 does not hold of the code: the loops of \<open>main\<close> have no \<open>try\<close>. With two keys
  and a driver that refuses the first one, \<open>on\<close> ends with the exception of the first
  write; nothing is written or printed for the second key, which \<open>activate\<close> would have
  bound.
\<close>

theorem on_stops_at_refused_key:
  "main sysfs_os [''yubiswitch'', ''on''] \<lparr>command = On, debug = False\<rparr> (start two_keys_refusing) =
     (Inl OtherOSError, start two_keys_refusing) \<and>
   fst (get_yubikeys sysfs_os False (start two_keys_refusing)) = Inr [otp0, otp1] \<and>
   fst (activate sysfs_os otp1 (start two_keys_refusing)) = Inr True"
  using scan_refusing
  by (simp add: main_def euid_refusing [simplified] activate_refusing activate_second)

text \<open>
  Claim C6, amended. When the bind (or unbind) write fails for one key of the batch, the
  exception leaves \<open>main\<close>, and so reaches the invoker; the keys that follow in the batch
  are not processed: the world is the one the keys before left.
\<close>

theorem batch_aborts_on_failure:
  "(os_geteuid os (sys w) = 0 \<and>
    get_yubikeys os dbg w = (Inr (pre @ y # rest), w0) \<and>
    on_loop os pre w0 = (Inr (), w1) \<and>
    fst (is_active os y w1) = Inr False \<and>
    os_write os (sys w1) usbhid_bind (dev_id y) = Inl e \<longrightarrow>
      main os argv \<lparr>command = On, debug = dbg\<rparr> w = (Inl e, w1)) \<and>
   (os_geteuid os (sys w) = 0 \<and>
    get_yubikeys os dbg w = (Inr (pre @ y # rest), w0) \<and>
    off_loop os pre w0 = (Inr (), w1) \<and>
    fst (is_active os y w1) = Inr True \<and>
    os_write os (sys w1) usbhid_unbind (dev_id y) = Inl e \<longrightarrow>
      main os argv \<lparr>command = Off, debug = dbg\<rparr> w = (Inl e, w1))"
  by (simp add: main_def on_loop_append off_loop_append activate_write_fails
      deactivate_write_fails)

lemma is_active_bound_refusing:
  "is_active sysfs_os otp0 (start bound_refusing) = (Inr True, start bound_refusing)"
  by (simp add: is_active_def sysfs_defs state_defs key_defs os_path_join_def usbhid_def)

lemma write_bound_refusing:
  "os_write sysfs_os (sys (start bound_refusing)) usbhid_unbind (dev_id otp0) = Inl OtherOSError"
  by (simp add: sysfs_defs state_defs key_defs usbhid_bind_def usbhid_unbind_def)

lemma euid_bound_refusing: "os_geteuid sysfs_os (sys (start bound_refusing)) = 0"
  by (simp add: sysfs_defs state_defs)

lemma scan_bound_refusing:
  "get_yubikeys sysfs_os False (start bound_refusing) =
     (Inr ([] @ otp0 # [otp1]), start bound_refusing)"
  by (simp add: scan_defs sysfs_defs bound_refusing_def two_keys_tree_def key_defs)

theorem batch_aborts_on_failure_witness:
  "main sysfs_os [''yubiswitch'', ''on''] \<lparr>command = On, debug = False\<rparr>
       (start two_keys_refusing) =
     (Inl OtherOSError, start two_keys_refusing) \<and>
   main sysfs_os [''yubiswitch'', ''off''] \<lparr>command = Off, debug = False\<rparr>
       (start bound_refusing) =
     (Inl OtherOSError, start bound_refusing)"
proof -
  have on_pre: "on_loop sysfs_os [] (start two_keys_refusing) = (Inr (), start two_keys_refusing)"
    by simp
  have off_pre: "off_loop sysfs_os [] (start bound_refusing) = (Inr (), start bound_refusing)"
    by simp
  have inactive: "fst (is_active sysfs_os otp0 (start two_keys_refusing)) = Inr False"
    by (simp add: is_active_refusing)
  have active: "fst (is_active sysfs_os otp0 (start bound_refusing)) = Inr True"
    by (simp add: is_active_bound_refusing)
  from batch_aborts_on_failure [of sysfs_os "start two_keys_refusing" False "[]" otp0 "[otp1]"
      "start two_keys_refusing" "start two_keys_refusing" OtherOSError "[''yubiswitch'', ''on'']"]
    euid_refusing scan_refusing on_pre inactive write_refusing
  have 1: "main sysfs_os [''yubiswitch'', ''on''] \<lparr>command = On, debug = False\<rparr>
       (start two_keys_refusing) = (Inl OtherOSError, start two_keys_refusing)"
    by blast
  from batch_aborts_on_failure [of sysfs_os "start bound_refusing" False "[]" otp0 "[otp1]"
      "start bound_refusing" "start bound_refusing" OtherOSError "[''yubiswitch'', ''off'']"]
    euid_bound_refusing scan_bound_refusing off_pre active write_bound_refusing
  have 2: "main sysfs_os [''yubiswitch'', ''off''] \<lparr>command = Off, debug = False\<rparr>
       (start bound_refusing) = (Inl OtherOSError, start bound_refusing)"
    by blast
  from 1 2 show ?thesis by (intro conjI)
qed

text \<open>
  Claim C9. With the single entry \<open>1-2\<close> of the vendor, product \<open>YubiKey 5\<close>, one
  sub-directory \<open>1-2:1.0\<close> and nothing under the driver's directory, \<open>list\<close> prints the
  one line \<open>1) 1-2:1.0    YubiKey 5 (active=False)\<close>.
\<close>

theorem list_one_key:
  "main sysfs_os argv \<lparr>command = List, debug = False\<rparr> (start one_key) =
     (Inr (), (start one_key)\<lparr>stdout := [''1) 1-2:1.0    YubiKey 5 (active=False)'']\<rparr>)"
proof -
  have inactive: "is_active sysfs_os \<lparr>dev_id = ''1-2:1.0'', product = ''YubiKey 5''\<rparr> (start one_key) =
      (Inr False, start one_key)"
    by (simp add: is_active_def sysfs_defs one_key_def one_key_tree_def start_def usbhid_def
        os_path_join_def)
  have pad: "py_ljust 10 ''1-2:1.0'' = ''1-2:1.0   ''"
    by (simp add: py_ljust_def eval_nat_numeral)
  have out: "stdout (start one_key) = []" by (simp add: start_def)
  show ?thesis
    by (simp add: main_def get_yubikeys_one_key inactive pad str_nat_1 print_sysfs out)
qed

end
